theory Spec2Isabelle
  imports Complex_Main
begin

section \<open>Numbers and text of the source language\<close>

text \<open>
  The programs are Python. Its unbounded integers are \<^typ>\<open>int\<close>. Its floats are
  modelled by \<^typ>\<open>real\<close>: every arithmetic step is taken as exact, so the model is the
  program up to the rounding error of binary floating point. The inputs that the
  theorems below evaluate (0.25, 0.5, small integers) are exact in binary floating
  point as well. Colour names, annotation types and messages are \<^typ>\<open>string\<close>, read as
  the code points below 256; the text of a procedure document, which the colour parser
  reads, is a list of arbitrary code points (see below).
\<close>

definition py_round :: "real \<Rightarrow> int" where
  \<comment> \<open>the builtin \<open>round\<close> with one argument: nearest integer, ties to the even one\<close>
  "py_round r =
     (let f = \<lfloor>r\<rfloor>; d = r - of_int f
      in if d < 1 / 2 then f
         else if 1 / 2 < d then f + 1
         else if even f then f else f + 1)"

definition py_int :: "real \<Rightarrow> int" where
  \<comment> \<open>the builtin \<open>int\<close> on a float: truncation towards zero\<close>
  "py_int r = (if 0 \<le> r then \<lfloor>r\<rfloor> else \<lceil>r\<rceil>)"

definition digit_char :: "nat \<Rightarrow> char" where
  "digit_char d = ''0123456789'' ! d"

fun str_nat :: "nat \<Rightarrow> string" where
  "str_nat n = (if n < 10 then [digit_char n] else str_nat (n div 10) @ [digit_char (n mod 10)])"

declare str_nat.simps [simp del]

definition str_int :: "int \<Rightarrow> string" where
  \<comment> \<open>\<open>str\<close> of an integer, also what an f-string writes\<close>
  "str_int i = (if i < 0 then CHR ''-'' # str_nat (nat (- i)) else str_nat (nat i))"

section \<open>Geometry utilities (screenshot_processor.py)\<close>

definition percent_to_pixels :: "real \<Rightarrow> int \<Rightarrow> int" where
  \<comment> \<open>src/extracted-skill/tfcu-procedure-formatter/screenshot_processor.py, line 85\<close>
  "percent_to_pixels percent dimension = py_round ((percent / 100) * of_int dimension)"

definition percent_to_pixels_toplevel :: "real \<Rightarrow> int \<Rightarrow> int" where
  \<comment> \<open>the function of the same name in src/screenshot_processor.py, line 85\<close>
  "percent_to_pixels_toplevel percent dimension = py_int ((percent / 100) * of_int dimension)"

definition clamp_to_bounds :: "int \<Rightarrow> int \<Rightarrow> int \<Rightarrow> int \<Rightarrow> int \<Rightarrow> int \<Rightarrow> int \<times> int" where
  "clamp_to_bounds x y radius width height margin =
     (let x' = max (radius + margin) (min x (width - radius - margin));
          y' = max (radius + margin) (min y (height - radius - margin))
      in (x', y'))"

definition calculate_dynamic_radius :: "int \<Rightarrow> int \<Rightarrow> int \<Rightarrow> int \<Rightarrow> int" where
  "calculate_dynamic_radius image_width base_radius min_radius max_radius =
     (let scaled = of_int image_width * (55 / 1000 :: real)
      in max min_radius (min max_radius (py_round scaled)))"

section \<open>Annotation validator (screenshot_processor.py)\<close>

text \<open>
  An annotation descriptor is a Python dict. Each key that the validator and the figure
  registry read is a field holding \<open>None\<close> when the key is absent, and \<open>dict_get\<close> is
  \<open>dict.get(key, default)\<close>.
\<close>

definition dict_get :: "'a option \<Rightarrow> 'a \<Rightarrow> 'a" where
  "dict_get field dflt = (case field of None \<Rightarrow> dflt | Some v \<Rightarrow> v)"

record position =
  pos_x :: "real option"
  pos_y :: "real option"

record bbox =
  bbox_x :: "real option"
  bbox_y :: "real option"
  bbox_w :: "real option"
  bbox_h :: "real option"

record descriptor =
  ann_type :: "string option"
  ann_position :: "position option"
  ann_end :: "position option"
  ann_bbox :: "bbox option"
  ann_radius :: "real option"
  ann_text :: "string option"
  ann_description :: "string option"
  ann_number :: "int option"
  ann_color :: "string option"

record placed =
  p_x :: int
  p_y :: int
  p_radius :: int
  p_type :: string
  p_number :: "int option"

record validator =
  width :: int
  height :: int
  margin :: int
  placed_annotations :: "placed list"

definition AnnotationValidator :: "int \<Rightarrow> int \<Rightarrow> int \<Rightarrow> validator" where
  \<comment> \<open>the constructor; \<open>margin\<close> defaults to 5\<close>
  "AnnotationValidator image_width image_height margin' =
     \<lparr>width = image_width, height = image_height, margin = margin', placed_annotations = []\<rparr>"

definition get_annotation_bounds :: "validator \<Rightarrow> descriptor \<Rightarrow> int \<Rightarrow> int \<times> int \<times> int" where
  "get_annotation_bounds v ann default_radius =
     (let ty = dict_get (ann_type ann) ''callout''
      in if ty = ''callout'' \<or> ty = ''circle'' then
           (let pos = dict_get (ann_position ann) \<lparr>pos_x = Some 50, pos_y = Some 50\<rparr>;
                x = percent_to_pixels (dict_get (pos_x pos) 50) (width v);
                y = percent_to_pixels (dict_get (pos_y pos) 50) (height v);
                radius = (if ty = ''callout'' then calculate_dynamic_radius (width v) 18 14 28
                          else percent_to_pixels (dict_get (ann_radius ann) 5) (width v))
            in (x, y, radius))
         else if ty = ''label'' then
           (let pos = dict_get (ann_position ann) \<lparr>pos_x = Some 50, pos_y = Some 50\<rparr>;
                x = percent_to_pixels (dict_get (pos_x pos) 50) (width v);
                y = percent_to_pixels (dict_get (pos_y pos) 50) (height v);
                text_len = int (length (dict_get (ann_text ann) ''Label''));
                radius = max 20 (text_len * 4)
            in (x, y, radius))
         else if ty = ''highlight'' then
           (let bb = dict_get (ann_bbox ann)
                       \<lparr>bbox_x = Some 40, bbox_y = Some 40, bbox_w = Some 20, bbox_h = Some 20\<rparr>;
                x = percent_to_pixels (dict_get (bbox_x bb) 40 + dict_get (bbox_w bb) 20 / 2) (width v);
                y = percent_to_pixels (dict_get (bbox_y bb) 40 + dict_get (bbox_h bb) 20 / 2) (height v);
                radius = max (percent_to_pixels (dict_get (bbox_w bb) 20 / 2) (width v))
                             (percent_to_pixels (dict_get (bbox_h bb) 20 / 2) (height v))
            in (x, y, radius))
         else if ty = ''arrow'' then
           (let e = dict_get (ann_end ann) \<lparr>pos_x = Some 50, pos_y = Some 50\<rparr>;
                x = percent_to_pixels (dict_get (pos_x e) 50) (width v);
                y = percent_to_pixels (dict_get (pos_y e) 50) (height v)
            in (x, y, 15))
         else (width v div 2, height v div 2, default_radius))"

definition check_bounds :: "validator \<Rightarrow> int \<Rightarrow> int \<Rightarrow> int \<Rightarrow> bool \<times> string" where
  "check_bounds v x y radius =
     (if x - radius < margin v then
        (False, ''Too close to left edge (x='' @ str_int x @ '', radius='' @ str_int radius @ '')'')
      else if x + radius > width v - margin v then
        (False, ''Too close to right edge (x='' @ str_int x @ '', radius='' @ str_int radius @ '')'')
      else if y - radius < margin v then
        (False, ''Too close to top edge (y='' @ str_int y @ '', radius='' @ str_int radius @ '')'')
      else if y + radius > height v - margin v then
        (False, ''Too close to bottom edge (y='' @ str_int y @ '', radius='' @ str_int radius @ '')'')
      else (True, ''OK''))"

record collision =
  col_placed :: placed
  col_distance :: real
  col_required :: int
  col_overlap :: real

definition collision_with :: "int \<Rightarrow> int \<Rightarrow> int \<Rightarrow> int \<Rightarrow> placed \<Rightarrow> collision option" where
  \<comment> \<open>the body of the loop of \<open>check_collision\<close>, for one placed record\<close>
  "collision_with x y radius min_gap pl =
     (let px = p_x pl; py = p_y pl; pr = p_radius pl;
          distance = sqrt (of_int ((x - px)\<^sup>2 + (y - py)\<^sup>2));
          min_distance = radius + pr + min_gap
      in if distance < of_int min_distance then
           Some \<lparr>col_placed = pl, col_distance = distance, col_required = min_distance,
                 col_overlap = of_int min_distance - distance\<rparr>
         else None)"

definition check_collision :: "validator \<Rightarrow> int \<Rightarrow> int \<Rightarrow> int \<Rightarrow> int \<Rightarrow> collision list" where
  \<comment> \<open>\<open>min_gap\<close> defaults to 5\<close>
  "check_collision v x y radius min_gap =
     List.map_filter (collision_with x y radius min_gap) (placed_annotations v)"

definition push_away :: "int \<Rightarrow> int \<Rightarrow> real \<times> real \<Rightarrow> collision \<Rightarrow> real \<times> real" where
  \<comment> \<open>the body of the loop of \<open>suggest_adjustment\<close>: the displacement after one collision\<close>
  "push_away x y d col =
     (let px = p_x (col_placed col); py = p_y (col_placed col);
          overlap = col_overlap col;
          vx = x - px; vy = y - py;
          dist = sqrt (of_int (vx * vx + vy * vy))
      in if dist > 0 then
           (fst d + (of_int vx / dist) * (overlap + 5), snd d + (of_int vy / dist) * (overlap + 5))
         else (fst d + (overlap + 5), snd d + (overlap + 5)))"

definition suggest_adjustment :: "validator \<Rightarrow> int \<Rightarrow> int \<Rightarrow> int \<Rightarrow> collision list \<Rightarrow> int \<times> int" where
  "suggest_adjustment v x y radius collisions =
     (if collisions = [] then (x, y)
      else
        (let d = foldl (push_away x y) (0, 0) collisions;
             new_x = py_round (of_int x + fst d);
             new_y = py_round (of_int y + snd d)
         in clamp_to_bounds new_x new_y radius (width v) (height v) (margin v)))"

record pixel_position =
  px_x :: int
  px_y :: int
  px_radius :: int

record result =
  valid :: bool
  adjusted :: bool
  original_position :: "pixel_position option"
  adjusted_position :: "pixel_position option"
  warnings :: "string list"
  errors :: "string list"

definition missing_description :: "descriptor \<Rightarrow> bool" where
  \<comment> \<open>the test of line 314: \<open>not ann.get("description") and ann_type in (...)\<close>;
      an absent key and the empty string are the falsy descriptions\<close>
  "missing_description ann =
     ((ann_description ann = None \<or> ann_description ann = Some [])
      \<and> dict_get (ann_type ann) ''callout'' \<in> {''callout'', ''arrow'', ''highlight''})"

definition validate_and_adjust :: "validator \<Rightarrow> descriptor \<Rightarrow> result \<times> validator" where
  "validate_and_adjust v ann =
     (let r0 = \<lparr>valid = True, adjusted = False, original_position = None,
                adjusted_position = None, warnings = [], errors = []\<rparr>;
          ty = dict_get (ann_type ann) ''callout'';
          (x, y, radius) = get_annotation_bounds v ann 18;
          r1 = r0\<lparr>original_position := Some \<lparr>px_x = x, px_y = y, px_radius = radius\<rparr>\<rparr>;
          r2 = (if missing_description ann
                then r1\<lparr>errors := errors r1 @
                          [''Missing required '' @ [CHR 0x27] @ ''description'' @ [CHR 0x27]
                           @ '' field for '' @ ty],
                        valid := False\<rparr>
                else r1);
          (in_bounds, bounds_msg) = check_bounds v x y radius;
          (x1, y1) = (if \<not> in_bounds
                      then clamp_to_bounds x y radius (width v) (height v) (margin v)
                      else (x, y));
          r3 = (if \<not> in_bounds
                then r2\<lparr>warnings := warnings r2 @ [''Out of bounds: '' @ bounds_msg],
                        adjusted := True\<rparr>
                else r2);
          collisions = check_collision v x1 y1 radius 5;
          (x2, y2) = (if collisions \<noteq> [] then suggest_adjustment v x1 y1 radius collisions
                      else (x1, y1));
          r4 = (if collisions \<noteq> []
                then r3\<lparr>warnings := warnings r3 @
                          [''Collision detected with '' @ str_int (int (length collisions))
                           @ '' annotation(s)''],
                        adjusted := True\<rparr>
                else r3);
          r5 = (if adjusted r4
                then r4\<lparr>adjusted_position := Some \<lparr>px_x = x2, px_y = y2, px_radius = radius\<rparr>\<rparr>
                else r4);
          v' = v\<lparr>placed_annotations := placed_annotations v @
                  [\<lparr>p_x = x2, p_y = y2, p_radius = radius, p_type = ty,
                    p_number = ann_number ann\<rparr>]\<rparr>
      in (r5, v'))"

record indexed_result = result +
  index :: nat
  annotation :: descriptor

record results =
  res_annotations :: "indexed_result list"
  res_total :: nat
  res_valid :: nat
  res_adjusted :: nat
  res_errors :: nat
  res_all_valid :: bool

fun validate_all_loop :: "nat \<Rightarrow> descriptor list \<Rightarrow> results \<times> validator \<Rightarrow> results \<times> validator" where
  "validate_all_loop i [] (rs, v) = (rs, v)"
| "validate_all_loop i (ann # anns) (rs, v) =
     (let (r, v') = validate_and_adjust v ann;
          ann_result = result.extend r \<lparr>index = i, annotation = ann\<rparr>;
          rs1 = rs\<lparr>res_annotations := res_annotations rs @ [ann_result]\<rparr>;
          rs2 = (if valid ann_result then rs1\<lparr>res_valid := res_valid rs1 + 1\<rparr>
                 else rs1\<lparr>res_errors := res_errors rs1 + 1, res_all_valid := False\<rparr>);
          rs3 = (if adjusted ann_result then rs2\<lparr>res_adjusted := res_adjusted rs2 + 1\<rparr> else rs2)
      in validate_all_loop (Suc i) anns (rs3, v'))"

definition validate_all :: "validator \<Rightarrow> descriptor list \<Rightarrow> results \<times> validator" where
  "validate_all v annotations =
     validate_all_loop 0 annotations
       (\<lparr>res_annotations = [], res_total = length annotations, res_valid = 0,
         res_adjusted = 0, res_errors = 0, res_all_valid = True\<rparr>,
        v\<lparr>placed_annotations := []\<rparr>)"

subsection \<open>The bounds invariant of a placed annotation\<close>

text \<open>
  \<open>within_bounds\<close> is the invariant as the specification words it. \<open>fits_canvas\<close> says
  that the canvas is wide and high enough for the record's radius and the margin, which is
  when some position satisfies the invariant at all.
\<close>

definition within_bounds :: "validator \<Rightarrow> placed \<Rightarrow> bool" where
  "within_bounds v p =
     (margin v \<le> p_x p - p_radius p \<and> p_x p + p_radius p \<le> width v - margin v \<and>
      margin v \<le> p_y p - p_radius p \<and> p_y p + p_radius p \<le> height v - margin v)"

definition fits_canvas :: "validator \<Rightarrow> placed \<Rightarrow> bool" where
  "fits_canvas v p =
     (p_radius p + margin v \<le> width v - p_radius p - margin v \<and>
      p_radius p + margin v \<le> height v - p_radius p - margin v)"

text \<open>
  Where a record lies on one axis, with \<open>c\<close> its coordinate and \<open>d\<close> the width or the
  height: inside the margins when the axis is long enough for the radius, and at
  radius + margin, the lower bound of the clamp, when it is not.
\<close>

definition placed_on_axis :: "int \<Rightarrow> int \<Rightarrow> int \<Rightarrow> int \<Rightarrow> bool" where
  "placed_on_axis c r d m =
     (if r + m \<le> d - r - m then m \<le> c - r \<and> c + r \<le> d - m else c = r + m)"

definition placed_ok :: "validator \<Rightarrow> placed \<Rightarrow> bool" where
  "placed_ok v p =
     (placed_on_axis (p_x p) (p_radius p) (width v) (margin v) \<and>
      placed_on_axis (p_y p) (p_radius p) (height v) (margin v))"

section \<open>Colour names (screenshot_processor.py, scripts/validate_procedure.py)\<close>

text \<open>
  \<open>str.lower\<close> and \<open>str.strip\<close> on the code points below 256: the capital letters are
  A to Z and U+00C0 to U+00DE without the multiplication sign U+00D7, each 32 below its
  small letter; the white space is U+0009 to U+000D, U+001C to U+0020, U+0085 and U+00A0.
\<close>

definition py_lower_char :: "char \<Rightarrow> char" where
  "py_lower_char c =
     (let n = (of_char c :: nat)
      in if (65 \<le> n \<and> n \<le> 90) \<or> (192 \<le> n \<and> n \<le> 222 \<and> n \<noteq> 215)
         then char_of (n + 32) else c)"

definition py_lower :: "string \<Rightarrow> string" where
  "py_lower s = map py_lower_char s"

definition py_isspace :: "char \<Rightarrow> bool" where
  "py_isspace c = ((of_char c :: nat) \<in> {9, 10, 11, 12, 13, 28, 29, 30, 31, 32, 133, 160})"

definition py_strip :: "string \<Rightarrow> string" where
  "py_strip s = rev (dropWhile py_isspace (rev (dropWhile py_isspace s)))"

text \<open>
  \<open>FigureRegistry.COLOR_PALETTE\<close>, a dict in this order, and
  \<open>FigureRegistry._normalize_color\<close> (the leading underscore is dropped).
\<close>

definition COLOR_PALETTE :: "(string \<times> string) list" where
  "COLOR_PALETTE =
     [(''red'', ''#C00000''), (''critical'', ''#C00000''),
      (''blue'', ''#2E74B5''), (''info'', ''#2E74B5''),
      (''gold'', ''#FFC000''), (''warning'', ''#FFC000''), (''yellow'', ''#FFC000''),
      (''green'', ''#548235''), (''success'', ''#548235''),
      (''teal'', ''#154747''), (''primary'', ''#154747''),
      (''purple'', ''#7030A0''), (''orange'', ''#ED7D31'')]"

definition startswith_hash :: "string \<Rightarrow> bool" where
  "startswith_hash s = (case s of [] \<Rightarrow> False | c # _ \<Rightarrow> c = CHR ''#'')"

definition normalize_color :: "string \<Rightarrow> string" where
  "normalize_color color =
     (if color = [] then ''teal''
      else
        (let color_lower = py_strip (py_lower color)
         in if startswith_hash color_lower then
              (case find (\<lambda>(name, hex_val). py_lower hex_val = color_lower) COLOR_PALETTE of
                 Some (name, hex_val) \<Rightarrow> name
               | None \<Rightarrow> color_lower)
            else if color_lower \<in> set (map fst COLOR_PALETTE) then color_lower else ''teal''))"

text \<open>\<open>ColorConsistencyValidator.COLOR_EQUIVALENTS\<close> and \<open>_colors_match\<close>.\<close>

definition COLOR_EQUIVALENTS :: "(string \<times> string list) list" where
  "COLOR_EQUIVALENTS =
     [(''red'', [''red'', ''critical'']), (''critical'', [''red'', ''critical'']),
      (''blue'', [''blue'', ''info'']), (''info'', [''blue'', ''info'']),
      (''gold'', [''gold'', ''warning'', ''yellow'']),
      (''warning'', [''gold'', ''warning'', ''yellow'']),
      (''yellow'', [''gold'', ''warning'', ''yellow'']),
      (''green'', [''green'', ''success'']), (''success'', [''green'', ''success'']),
      (''teal'', [''teal'', ''primary'']), (''primary'', [''teal'', ''primary'']),
      (''purple'', [''purple'']), (''orange'', [''orange''])]"

definition colors_match :: "string \<Rightarrow> string \<Rightarrow> bool" where
  "colors_match expected actual =
     (let expected_lower = py_lower expected; actual_lower = py_lower actual
      in if expected_lower = actual_lower then True
         else (let expected_equiv = (case map_of COLOR_EQUIVALENTS expected_lower of
                                       Some l \<Rightarrow> l | None \<Rightarrow> [expected_lower])
               in actual_lower \<in> set expected_equiv))"

text \<open>
  Two names are co-members of a declared equivalence class when one of the lists that
  \<open>COLOR_EQUIVALENTS\<close> declares holds both.
\<close>

definition co_members :: "string \<Rightarrow> string \<Rightarrow> bool" where
  "co_members a b = (\<exists>cls \<in> set (map snd COLOR_EQUIVALENTS). a \<in> set cls \<and> b \<in> set cls)"

section \<open>Text of a document\<close>

text \<open>
  A procedure document may hold any character (the parser itself looks for the circled
  digits U+2460 to U+2469), so its text is a list of code points, which are integers.
  \<open>ustr\<close> reads a literal of the source as such a text. The tables are those of
  Unicode 14, with which CPython 3.11 works: \<open>SPACE_RANGES\<close> is the white space (\<open>str.isspace\<close>, \<open>str.strip\<close> and the class
  \<open>\s\<close>), \<open>DIGIT_RANGES\<close> the decimal digits (the class \<open>\d\<close>; each script has its ten
  digits in a row, the mathematical digits from U+1D7CE five times ten, so that the value
  that \<open>int\<close> gives a digit is its distance from the start of its range modulo 10), and
  \<open>WORD_RANGES\<close> the alphanumeric characters and the underscore (the class \<open>\w\<close>, which
  decides where \<open>\b\<close> matches).
\<close>

type_synonym ustring = "int list"

definition ustr :: "string \<Rightarrow> ustring" where
  "ustr s = map of_char s"

fun in_ranges :: "(int \<times> int) list \<Rightarrow> int \<Rightarrow> bool" where
  "in_ranges [] c = False"
| "in_ranges ((lo, hi) # rs) c = (if lo \<le> c \<and> c \<le> hi then True else in_ranges rs c)"

definition SPACE_RANGES :: "(int \<times> int) list" where
  "SPACE_RANGES =
     [(9, 13), (28, 32), (133, 133), (160, 160), (5760, 5760), (8192, 8202),
      (8232, 8233), (8239, 8239), (8287, 8287), (12288, 12288)]"

definition DIGIT_RANGES :: "(int \<times> int) list" where
  "DIGIT_RANGES =
     [(48, 57), (1632, 1641), (1776, 1785), (1984, 1993), (2406, 2415), (2534, 2543),
      (2662, 2671), (2790, 2799), (2918, 2927), (3046, 3055), (3174, 3183), (3302, 3311),
      (3430, 3439), (3558, 3567), (3664, 3673), (3792, 3801), (3872, 3881), (4160, 4169),
      (4240, 4249), (6112, 6121), (6160, 6169), (6470, 6479), (6608, 6617), (6784, 6793),
      (6800, 6809), (6992, 7001), (7088, 7097), (7232, 7241), (7248, 7257), (42528, 42537),
      (43216, 43225), (43264, 43273), (43472, 43481), (43504, 43513), (43600, 43609), (44016, 44025),
      (65296, 65305), (66720, 66729), (68912, 68921), (69734, 69743), (69872, 69881), (69942, 69951),
      (70096, 70105), (70384, 70393), (70736, 70745), (70864, 70873), (71248, 71257), (71360, 71369),
      (71472, 71481), (71904, 71913), (72016, 72025), (72784, 72793), (73040, 73049), (73120, 73129),
      (92768, 92777), (92864, 92873), (93008, 93017), (120782, 120831), (123200, 123209), (123632, 123641),
      (125264, 125273), (130032, 130041)]"

definition WORD_RANGES :: "(int \<times> int) list" where
  "WORD_RANGES =
     [(48, 57), (65, 90), (95, 95), (97, 122), (170, 170), (178, 179),
      (181, 181), (185, 186), (188, 190), (192, 214), (216, 246), (248, 705),
      (710, 721), (736, 740), (748, 748), (750, 750), (880, 884), (886, 887),
      (890, 893), (895, 895), (902, 902), (904, 906), (908, 908), (910, 929),
      (931, 1013), (1015, 1153), (1162, 1327), (1329, 1366), (1369, 1369), (1376, 1416),
      (1488, 1514), (1519, 1522), (1568, 1610), (1632, 1641), (1646, 1647), (1649, 1747),
      (1749, 1749), (1765, 1766), (1774, 1788), (1791, 1791), (1808, 1808), (1810, 1839),
      (1869, 1957), (1969, 1969), (1984, 2026), (2036, 2037), (2042, 2042), (2048, 2069),
      (2074, 2074), (2084, 2084), (2088, 2088), (2112, 2136), (2144, 2154), (2160, 2183),
      (2185, 2190), (2208, 2249), (2308, 2361), (2365, 2365), (2384, 2384), (2392, 2401),
      (2406, 2415), (2417, 2432), (2437, 2444), (2447, 2448), (2451, 2472), (2474, 2480),
      (2482, 2482), (2486, 2489), (2493, 2493), (2510, 2510), (2524, 2525), (2527, 2529),
      (2534, 2545), (2548, 2553), (2556, 2556), (2565, 2570), (2575, 2576), (2579, 2600),
      (2602, 2608), (2610, 2611), (2613, 2614), (2616, 2617), (2649, 2652), (2654, 2654),
      (2662, 2671), (2674, 2676), (2693, 2701), (2703, 2705), (2707, 2728), (2730, 2736),
      (2738, 2739), (2741, 2745), (2749, 2749), (2768, 2768), (2784, 2785), (2790, 2799),
      (2809, 2809), (2821, 2828), (2831, 2832), (2835, 2856), (2858, 2864), (2866, 2867),
      (2869, 2873), (2877, 2877), (2908, 2909), (2911, 2913), (2918, 2927), (2929, 2935),
      (2947, 2947), (2949, 2954), (2958, 2960), (2962, 2965), (2969, 2970), (2972, 2972),
      (2974, 2975), (2979, 2980), (2984, 2986), (2990, 3001), (3024, 3024), (3046, 3058),
      (3077, 3084), (3086, 3088), (3090, 3112), (3114, 3129), (3133, 3133), (3160, 3162),
      (3165, 3165), (3168, 3169), (3174, 3183), (3192, 3198), (3200, 3200), (3205, 3212),
      (3214, 3216), (3218, 3240), (3242, 3251), (3253, 3257), (3261, 3261), (3293, 3294),
      (3296, 3297), (3302, 3311), (3313, 3314), (3332, 3340), (3342, 3344), (3346, 3386),
      (3389, 3389), (3406, 3406), (3412, 3414), (3416, 3425), (3430, 3448), (3450, 3455),
      (3461, 3478), (3482, 3505), (3507, 3515), (3517, 3517), (3520, 3526), (3558, 3567),
      (3585, 3632), (3634, 3635), (3648, 3654), (3664, 3673), (3713, 3714), (3716, 3716),
      (3718, 3722), (3724, 3747), (3749, 3749), (3751, 3760), (3762, 3763), (3773, 3773),
      (3776, 3780), (3782, 3782), (3792, 3801), (3804, 3807), (3840, 3840), (3872, 3891),
      (3904, 3911), (3913, 3948), (3976, 3980), (4096, 4138), (4159, 4169), (4176, 4181),
      (4186, 4189), (4193, 4193), (4197, 4198), (4206, 4208), (4213, 4225), (4238, 4238),
      (4240, 4249), (4256, 4293), (4295, 4295), (4301, 4301), (4304, 4346), (4348, 4680),
      (4682, 4685), (4688, 4694), (4696, 4696), (4698, 4701), (4704, 4744), (4746, 4749),
      (4752, 4784), (4786, 4789), (4792, 4798), (4800, 4800), (4802, 4805), (4808, 4822),
      (4824, 4880), (4882, 4885), (4888, 4954), (4969, 4988), (4992, 5007), (5024, 5109),
      (5112, 5117), (5121, 5740), (5743, 5759), (5761, 5786), (5792, 5866), (5870, 5880),
      (5888, 5905), (5919, 5937), (5952, 5969), (5984, 5996), (5998, 6000), (6016, 6067),
      (6103, 6103), (6108, 6108), (6112, 6121), (6128, 6137), (6160, 6169), (6176, 6264),
      (6272, 6276), (6279, 6312), (6314, 6314), (6320, 6389), (6400, 6430), (6470, 6509),
      (6512, 6516), (6528, 6571), (6576, 6601), (6608, 6618), (6656, 6678), (6688, 6740),
      (6784, 6793), (6800, 6809), (6823, 6823), (6917, 6963), (6981, 6988), (6992, 7001),
      (7043, 7072), (7086, 7141), (7168, 7203), (7232, 7241), (7245, 7293), (7296, 7304),
      (7312, 7354), (7357, 7359), (7401, 7404), (7406, 7411), (7413, 7414), (7418, 7418),
      (7424, 7615), (7680, 7957), (7960, 7965), (7968, 8005), (8008, 8013), (8016, 8023),
      (8025, 8025), (8027, 8027), (8029, 8029), (8031, 8061), (8064, 8116), (8118, 8124),
      (8126, 8126), (8130, 8132), (8134, 8140), (8144, 8147), (8150, 8155), (8160, 8172),
      (8178, 8180), (8182, 8188), (8304, 8305), (8308, 8313), (8319, 8329), (8336, 8348),
      (8450, 8450), (8455, 8455), (8458, 8467), (8469, 8469), (8473, 8477), (8484, 8484),
      (8486, 8486), (8488, 8488), (8490, 8493), (8495, 8505), (8508, 8511), (8517, 8521),
      (8526, 8526), (8528, 8585), (9312, 9371), (9450, 9471), (10102, 10131), (11264, 11492),
      (11499, 11502), (11506, 11507), (11517, 11517), (11520, 11557), (11559, 11559), (11565, 11565),
      (11568, 11623), (11631, 11631), (11648, 11670), (11680, 11686), (11688, 11694), (11696, 11702),
      (11704, 11710), (11712, 11718), (11720, 11726), (11728, 11734), (11736, 11742), (11823, 11823),
      (12293, 12295), (12321, 12329), (12337, 12341), (12344, 12348), (12353, 12438), (12445, 12447),
      (12449, 12538), (12540, 12543), (12549, 12591), (12593, 12686), (12690, 12693), (12704, 12735),
      (12784, 12799), (12832, 12841), (12872, 12879), (12881, 12895), (12928, 12937), (12977, 12991),
      (13312, 19903), (19968, 42124), (42192, 42237), (42240, 42508), (42512, 42539), (42560, 42606),
      (42623, 42653), (42656, 42735), (42775, 42783), (42786, 42888), (42891, 42954), (42960, 42961),
      (42963, 42963), (42965, 42969), (42994, 43009), (43011, 43013), (43015, 43018), (43020, 43042),
      (43056, 43061), (43072, 43123), (43138, 43187), (43216, 43225), (43250, 43255), (43259, 43259),
      (43261, 43262), (43264, 43301), (43312, 43334), (43360, 43388), (43396, 43442), (43471, 43481),
      (43488, 43492), (43494, 43518), (43520, 43560), (43584, 43586), (43588, 43595), (43600, 43609),
      (43616, 43638), (43642, 43642), (43646, 43695), (43697, 43697), (43701, 43702), (43705, 43709),
      (43712, 43712), (43714, 43714), (43739, 43741), (43744, 43754), (43762, 43764), (43777, 43782),
      (43785, 43790), (43793, 43798), (43808, 43814), (43816, 43822), (43824, 43866), (43868, 43881),
      (43888, 44002), (44016, 44025), (44032, 55203), (55216, 55238), (55243, 55291), (63744, 64109),
      (64112, 64217), (64256, 64262), (64275, 64279), (64285, 64285), (64287, 64296), (64298, 64310),
      (64312, 64316), (64318, 64318), (64320, 64321), (64323, 64324), (64326, 64433), (64467, 64829),
      (64848, 64911), (64914, 64967), (65008, 65019), (65136, 65140), (65142, 65276), (65296, 65305),
      (65313, 65338), (65345, 65370), (65382, 65470), (65474, 65479), (65482, 65487), (65490, 65495),
      (65498, 65500), (65536, 65547), (65549, 65574), (65576, 65594), (65596, 65597), (65599, 65613),
      (65616, 65629), (65664, 65786), (65799, 65843), (65856, 65912), (65930, 65931), (66176, 66204),
      (66208, 66256), (66273, 66299), (66304, 66339), (66349, 66378), (66384, 66421), (66432, 66461),
      (66464, 66499), (66504, 66511), (66513, 66517), (66560, 66717), (66720, 66729), (66736, 66771),
      (66776, 66811), (66816, 66855), (66864, 66915), (66928, 66938), (66940, 66954), (66956, 66962),
      (66964, 66965), (66967, 66977), (66979, 66993), (66995, 67001), (67003, 67004), (67072, 67382),
      (67392, 67413), (67424, 67431), (67456, 67461), (67463, 67504), (67506, 67514), (67584, 67589),
      (67592, 67592), (67594, 67637), (67639, 67640), (67644, 67644), (67647, 67669), (67672, 67702),
      (67705, 67742), (67751, 67759), (67808, 67826), (67828, 67829), (67835, 67867), (67872, 67897),
      (67968, 68023), (68028, 68047), (68050, 68096), (68112, 68115), (68117, 68119), (68121, 68149),
      (68160, 68168), (68192, 68222), (68224, 68255), (68288, 68295), (68297, 68324), (68331, 68335),
      (68352, 68405), (68416, 68437), (68440, 68466), (68472, 68497), (68521, 68527), (68608, 68680),
      (68736, 68786), (68800, 68850), (68858, 68899), (68912, 68921), (69216, 69246), (69248, 69289),
      (69296, 69297), (69376, 69415), (69424, 69445), (69457, 69460), (69488, 69505), (69552, 69579),
      (69600, 69622), (69635, 69687), (69714, 69743), (69745, 69746), (69749, 69749), (69763, 69807),
      (69840, 69864), (69872, 69881), (69891, 69926), (69942, 69951), (69956, 69956), (69959, 69959),
      (69968, 70002), (70006, 70006), (70019, 70066), (70081, 70084), (70096, 70106), (70108, 70108),
      (70113, 70132), (70144, 70161), (70163, 70187), (70272, 70278), (70280, 70280), (70282, 70285),
      (70287, 70301), (70303, 70312), (70320, 70366), (70384, 70393), (70405, 70412), (70415, 70416),
      (70419, 70440), (70442, 70448), (70450, 70451), (70453, 70457), (70461, 70461), (70480, 70480),
      (70493, 70497), (70656, 70708), (70727, 70730), (70736, 70745), (70751, 70753), (70784, 70831),
      (70852, 70853), (70855, 70855), (70864, 70873), (71040, 71086), (71128, 71131), (71168, 71215),
      (71236, 71236), (71248, 71257), (71296, 71338), (71352, 71352), (71360, 71369), (71424, 71450),
      (71472, 71483), (71488, 71494), (71680, 71723), (71840, 71922), (71935, 71942), (71945, 71945),
      (71948, 71955), (71957, 71958), (71960, 71983), (71999, 71999), (72001, 72001), (72016, 72025),
      (72096, 72103), (72106, 72144), (72161, 72161), (72163, 72163), (72192, 72192), (72203, 72242),
      (72250, 72250), (72272, 72272), (72284, 72329), (72349, 72349), (72368, 72440), (72704, 72712),
      (72714, 72750), (72768, 72768), (72784, 72812), (72818, 72847), (72960, 72966), (72968, 72969),
      (72971, 73008), (73030, 73030), (73040, 73049), (73056, 73061), (73063, 73064), (73066, 73097),
      (73112, 73112), (73120, 73129), (73440, 73458), (73648, 73648), (73664, 73684), (73728, 74649),
      (74752, 74862), (74880, 75075), (77712, 77808), (77824, 78894), (82944, 83526), (92160, 92728),
      (92736, 92766), (92768, 92777), (92784, 92862), (92864, 92873), (92880, 92909), (92928, 92975),
      (92992, 92995), (93008, 93017), (93019, 93025), (93027, 93047), (93053, 93071), (93760, 93846),
      (93952, 94026), (94032, 94032), (94099, 94111), (94176, 94177), (94179, 94179), (94208, 100343),
      (100352, 101589), (101632, 101640), (110576, 110579), (110581, 110587), (110589, 110590), (110592, 110882),
      (110928, 110930), (110948, 110951), (110960, 111355), (113664, 113770), (113776, 113788), (113792, 113800),
      (113808, 113817), (119520, 119539), (119648, 119672), (119808, 119892), (119894, 119964), (119966, 119967),
      (119970, 119970), (119973, 119974), (119977, 119980), (119982, 119993), (119995, 119995), (119997, 120003),
      (120005, 120069), (120071, 120074), (120077, 120084), (120086, 120092), (120094, 120121), (120123, 120126),
      (120128, 120132), (120134, 120134), (120138, 120144), (120146, 120485), (120488, 120512), (120514, 120538),
      (120540, 120570), (120572, 120596), (120598, 120628), (120630, 120654), (120656, 120686), (120688, 120712),
      (120714, 120744), (120746, 120770), (120772, 120779), (120782, 120831), (122624, 122654), (123136, 123180),
      (123191, 123197), (123200, 123209), (123214, 123214), (123536, 123565), (123584, 123627), (123632, 123641),
      (124896, 124902), (124904, 124907), (124909, 124910), (124912, 124926), (124928, 125124), (125127, 125135),
      (125184, 125251), (125259, 125259), (125264, 125273), (126065, 126123), (126125, 126127), (126129, 126132),
      (126209, 126253), (126255, 126269), (126464, 126467), (126469, 126495), (126497, 126498), (126500, 126500),
      (126503, 126503), (126505, 126514), (126516, 126519), (126521, 126521), (126523, 126523), (126530, 126530),
      (126535, 126535), (126537, 126537), (126539, 126539), (126541, 126543), (126545, 126546), (126548, 126548),
      (126551, 126551), (126553, 126553), (126555, 126555), (126557, 126557), (126559, 126559), (126561, 126562),
      (126564, 126564), (126567, 126570), (126572, 126578), (126580, 126583), (126585, 126588), (126590, 126590),
      (126592, 126601), (126603, 126619), (126625, 126627), (126629, 126633), (126635, 126651), (127232, 127244),
      (130032, 130041), (131072, 173791), (173824, 177976), (177984, 178205), (178208, 183969), (183984, 191456),
      (194560, 195101), (196608, 201546)]"

definition u_isspace :: "int \<Rightarrow> bool" where
  "u_isspace c = in_ranges SPACE_RANGES c"

definition u_isdecimal :: "int \<Rightarrow> bool" where
  "u_isdecimal c = in_ranges DIGIT_RANGES c"

definition u_isword :: "int \<Rightarrow> bool" where
  "u_isword c = in_ranges WORD_RANGES c"

fun digit_value_in :: "(int \<times> int) list \<Rightarrow> int \<Rightarrow> int" where
  "digit_value_in [] c = 0"
| "digit_value_in ((lo, hi) # rs) c =
     (if lo \<le> c \<and> c \<le> hi then (c - lo) mod 10 else digit_value_in rs c)"

definition int_of_digits :: "ustring \<Rightarrow> int" where
  \<comment> \<open>\<open>int\<close> of a text of decimal digits\<close>
  "int_of_digits s = foldl (\<lambda>n c. 10 * n + digit_value_in DIGIT_RANGES c) 0 s"

definition u_strip :: "ustring \<Rightarrow> ustring" where
  "u_strip s = rev (dropWhile u_isspace (rev (dropWhile u_isspace s)))"

text \<open>
  With \<open>re.IGNORECASE\<close> a small ASCII letter of a pattern matches itself, its capital and,
  for i, s and k, also U+0130 and U+0131, U+017F, and U+212A; the patterns of the parser
  hold no other letters, and a character that is no letter matches itself only.
  \<open>u_lower\<close> is \<open>str.lower\<close> on what such a letter can match and on the code points below
  256: the capitals A to Z and U+00C0 to U+00DE (without U+00D7) move up by 32, U+0130
  becomes i followed by U+0307, U+212A becomes k. The parser lower-cases matched colour and
  type names only.
\<close>

definition ignorecase_variants :: "int \<Rightarrow> int list" where
  "ignorecase_variants p =
     (if 97 \<le> p \<and> p \<le> 122 then
        [p, p - 32] @ (if p = 105 then [0x130, 0x131] else if p = 115 then [0x17F]
                       else if p = 107 then [0x212A] else [])
      else [p])"

definition lit_matches :: "bool \<Rightarrow> int \<Rightarrow> int \<Rightarrow> bool" where
  "lit_matches ignorecase p c = (if ignorecase then c \<in> set (ignorecase_variants p) else p = c)"

definition u_lower_char :: "int \<Rightarrow> ustring" where
  "u_lower_char c =
     (if (65 \<le> c \<and> c \<le> 90) \<or> (192 \<le> c \<and> c \<le> 222 \<and> c \<noteq> 215) then [c + 32]
      else if c = 0x130 then [0x69, 0x307]
      else if c = 0x212A then [0x6B]
      else [c])"

definition u_lower :: "ustring \<Rightarrow> ustring" where
  "u_lower s = concat (map u_lower_char s)"

section \<open>Regular expressions (the part of Python's \<open>re\<close> that the patterns use)\<close>

text \<open>
  A backtracking matcher. A position in a text is the character before it, if there is
  one, and the text from it on. \<open>rmatch\<close> lists every way in which a pattern matches at a
  position, in the order in which Python's engine tries them (the left alternative first,
  the longest repetition first, an optional part present first), each with the groups it
  captured and the position after it. The first element is therefore the match that
  \<open>re\<close> reports. \<open>Boundary\<close> is \<open>\b\<close>: of the characters before and after the position,
  one is a word character and the other is not (or is missing).
\<close>

datatype char_class = Space | Digit | One_of "int list"

datatype regex =
    Eps
  | Lit int
  | Cls char_class
  | Seq regex regex
  | Alt regex regex
  | Opt regex
  | Plus char_class
  | Star char_class
  | Group nat regex
  | Boundary

fun in_class :: "char_class \<Rightarrow> int \<Rightarrow> bool" where
  "in_class Space c = u_isspace c"
| "in_class Digit c = u_isdecimal c"
| "in_class (One_of cs) c = (c \<in> set cs)"

type_synonym groups = "(nat \<times> ustring) list"

definition word_at :: "int option \<Rightarrow> bool" where
  "word_at c = (case c of None \<Rightarrow> False | Some c' \<Rightarrow> u_isword c')"

definition first_char :: "ustring \<Rightarrow> int option" where
  "first_char s = (case s of [] \<Rightarrow> None | c # _ \<Rightarrow> Some c)"

definition char_before :: "int option \<Rightarrow> ustring \<Rightarrow> nat \<Rightarrow> int option" where
  \<comment> \<open>the character before the position \<open>i\<close> characters further on\<close>
  "char_before b s i = (if i = 0 then b else Some (s ! (i - 1)))"

fun rmatch :: "bool \<Rightarrow> regex \<Rightarrow> int option \<Rightarrow> ustring \<Rightarrow> groups
                 \<Rightarrow> (groups \<times> int option \<times> ustring) list" where
  "rmatch ic Eps b s g = [(g, b, s)]"
| "rmatch ic (Lit p) b s g =
     (case s of [] \<Rightarrow> [] | c # cs \<Rightarrow> if lit_matches ic p c then [(g, Some c, cs)] else [])"
| "rmatch ic (Cls k) b s g =
     (case s of [] \<Rightarrow> [] | c # cs \<Rightarrow> if in_class k c then [(g, Some c, cs)] else [])"
| "rmatch ic (Seq r1 r2) b s g =
     concat (map (\<lambda>(g1, b1, s1). rmatch ic r2 b1 s1 g1) (rmatch ic r1 b s g))"
| "rmatch ic (Alt r1 r2) b s g = rmatch ic r1 b s g @ rmatch ic r2 b s g"
| "rmatch ic (Opt r) b s g = rmatch ic r b s g @ [(g, b, s)]"
| "rmatch ic (Plus k) b s g =
     map (\<lambda>i. (g, char_before b s i, drop i s))
         (rev [1 ..< Suc (length (takeWhile (in_class k) s))])"
| "rmatch ic (Star k) b s g =
     map (\<lambda>i. (g, char_before b s i, drop i s))
         (rev [0 ..< Suc (length (takeWhile (in_class k) s))])"
| "rmatch ic (Group n r) b s g =
     map (\<lambda>(g1, b1, s1). ((n, take (length s - length s1) s) # g1, b1, s1)) (rmatch ic r b s g)"
| "rmatch ic Boundary b s g = (if word_at b = word_at (first_char s) then [] else [(g, b, s)])"

definition match_at :: "bool \<Rightarrow> regex \<Rightarrow> int option \<Rightarrow> ustring
                          \<Rightarrow> (groups \<times> int option \<times> ustring) option" where
  \<comment> \<open>the match that starts at the position, if there is one\<close>
  "match_at ic r b s = (case rmatch ic r b s [] of [] \<Rightarrow> None | m # _ \<Rightarrow> Some m)"

text \<open>A match object: where the match starts in the line, and its groups.\<close>

type_synonym match_obj = "nat \<times> groups"

fun search_from :: "bool \<Rightarrow> regex \<Rightarrow> nat \<Rightarrow> int option \<Rightarrow> ustring \<Rightarrow> match_obj option" where
  "search_from ic r pos b [] = map_option (\<lambda>m. (pos, fst m)) (match_at ic r b [])"
| "search_from ic r pos b (c # cs) =
     (case match_at ic r b (c # cs) of
        Some m \<Rightarrow> Some (pos, fst m)
      | None \<Rightarrow> search_from ic r (Suc pos) (Some c) cs)"

definition search :: "bool \<Rightarrow> regex \<Rightarrow> ustring \<Rightarrow> match_obj option" where
  \<comment> \<open>\<open>pattern.search(line)\<close>: the leftmost match\<close>
  "search ic r s = search_from ic r 0 None s"

function finditer_from :: "bool \<Rightarrow> regex \<Rightarrow> nat \<Rightarrow> int option \<Rightarrow> ustring \<Rightarrow> match_obj list" where
  "finditer_from ic r pos b s =
     (case match_at ic r b s of
        None \<Rightarrow> (case s of [] \<Rightarrow> [] | c # cs \<Rightarrow> finditer_from ic r (Suc pos) (Some c) cs)
      | Some m \<Rightarrow>
          (pos, fst m) #
          (if length (snd (snd m)) < length s
           then finditer_from ic r (pos + (length s - length (snd (snd m)))) (fst (snd m))
                  (snd (snd m))
           else (case s of [] \<Rightarrow> [] | c # cs \<Rightarrow> finditer_from ic r (Suc pos) (Some c) cs)))"
  by pat_completeness auto
termination
  by (relation "measure (\<lambda>(ic, r, pos, b, s). length s)") auto

declare finditer_from.simps [simp del]

definition finditer :: "bool \<Rightarrow> regex \<Rightarrow> ustring \<Rightarrow> match_obj list" where
  \<comment> \<open>\<open>pattern.finditer(line)\<close>: the matches from left to right, each search starting where
      the match before it ended (one character further after an empty match)\<close>
  "finditer ic r s = finditer_from ic r 0 None s"

definition start :: "match_obj \<Rightarrow> nat" where
  "start m = fst m"

definition group :: "match_obj \<Rightarrow> nat \<Rightarrow> ustring option" where
  \<comment> \<open>\<open>match.group(n)\<close>, \<open>None\<close> for a group that took no part in the match\<close>
  "group m n = map_of (snd m) n"

definition group_str :: "match_obj \<Rightarrow> nat \<Rightarrow> ustring" where
  \<comment> \<open>\<open>match.group(n)\<close> for a group outside every optional part, which is always set\<close>
  "group_str m n = (case group m n of None \<Rightarrow> [] | Some t \<Rightarrow> t)"

fun lit_str :: "ustring \<Rightarrow> regex" where
  "lit_str [] = Eps"
| "lit_str (c # cs) = Seq (Lit c) (lit_str cs)"

fun alts :: "ustring list \<Rightarrow> regex" where
  \<comment> \<open>the words joined with a bar\<close>
  "alts [] = Eps"
| "alts [w] = lit_str w"
| "alts (w # ws) = Alt (lit_str w) (alts ws)"

section \<open>Text colour parser (scripts/text_color_parser.py)\<close>

text \<open>
  The module has its own \<open>COLOR_PALETTE\<close>, with the entries of the registry's in the same
  order.
\<close>

definition PARSER_PALETTE :: "(ustring \<times> ustring) list" where
  "PARSER_PALETTE = map (\<lambda>(name, hex_val). (ustr name, ustr hex_val)) COLOR_PALETTE"

definition ANNOTATION_TYPES :: "ustring list" where
  "ANNOTATION_TYPES =
     map ustr [''callout'', ''arrow'', ''highlight'', ''circle'', ''box'', ''label'', ''marker'',
               ''number'', ''indicator'']"

definition COLOR_NAMES :: regex where
  "COLOR_NAMES = alts (map fst PARSER_PALETTE)"

definition ANNOTATION_TYPE_NAMES :: regex where
  "ANNOTATION_TYPE_NAMES = alts ANNOTATION_TYPES"

definition PARENTHETICAL_PATTERN :: regex where
  "PARENTHETICAL_PATTERN =
     Seq (Lit 0x28) (Seq (Group 1 COLOR_NAMES) (Seq (Plus Space)
       (Seq (Group 2 ANNOTATION_TYPE_NAMES)
         (Seq (Opt (Seq (Plus Space) (Group 3 (Plus Digit)))) (Lit 0x29)))))"

definition INLINE_PATTERN :: regex where
  "INLINE_PATTERN =
     Seq (alts (map ustr [''the'', ''see'', ''click'', ''select''])) (Seq (Plus Space)
       (Seq (Group 1 COLOR_NAMES) (Seq (Plus Space) (Seq (Group 2 ANNOTATION_TYPE_NAMES)
         (Opt (Seq (Plus Space) (Group 3 (Plus Digit))))))))"

definition NUMBER_FIRST_PATTERN :: regex where
  "NUMBER_FIRST_PATTERN =
     Seq (Group 1 ANNOTATION_TYPE_NAMES) (Seq (Plus Space) (Seq (Group 2 (Plus Digit))
       (Seq (Star Space) (Seq (Lit 0x28) (Seq (Group 3 COLOR_NAMES) (Lit 0x29))))))"

definition FIGURE_REF_PATTERN :: regex where
  "FIGURE_REF_PATTERN =
     Seq (Opt (Lit 0x28)) (Seq (Cls (One_of (ustr ''Ff''))) (Seq (lit_str (ustr ''igure''))
       (Seq (Plus Space) (Seq (Group 1 (Plus Digit)) (Opt (Lit 0x29))))))"

definition CIRCLED_NUMBERS :: "(ustring \<times> int) list" where
  \<comment> \<open>the circled digits one to ten, U+2460 to U+2469\<close>
  "CIRCLED_NUMBERS =
     [([0x2460], 1), ([0x2461], 2), ([0x2462], 3), ([0x2463], 4), ([0x2464], 5),
      ([0x2465], 6), ([0x2466], 7), ([0x2467], 8), ([0x2468], 9), ([0x2469], 10)]"

definition CIRCLED_PATTERN :: regex where
  "CIRCLED_PATTERN = Group 1 (Cls (One_of (concat (map fst CIRCLED_NUMBERS))))"

record reference =
  ref_color :: ustring
  ref_hex :: ustring
  ref_annotation_type :: ustring
  ref_number :: "int option"
  ref_line :: nat
  ref_figure :: "int option"
  ref_pattern :: ustring
  ref_context :: ustring

record parser =
  references :: "reference list"
  by_figure :: "(int \<times> reference list) list"
  current_figure :: "int option"

definition TextColorParser :: parser where
  \<comment> \<open>the constructor\<close>
  "TextColorParser = \<lparr>references = [], by_figure = [], current_figure = None\<rparr>"

fun dict_set :: "('k \<times> 'v) list \<Rightarrow> 'k \<Rightarrow> 'v \<Rightarrow> ('k \<times> 'v) list" where
  \<comment> \<open>\<open>d[k] = v\<close> on a dict kept in insertion order\<close>
  "dict_set [] k v = [(k, v)]"
| "dict_set ((k', v') # d) k v = (if k' = k then (k, v) # d else (k', v') # dict_set d k v)"

definition add_reference ::
  "ustring \<Rightarrow> ustring \<Rightarrow> int option \<Rightarrow> nat \<Rightarrow> ustring \<Rightarrow> ustring \<Rightarrow> parser \<Rightarrow> parser" where
  "add_reference color annotation_type number line_num pattern_type context p =
     (let color_lower = u_lower color;
          ref = \<lparr>ref_color = color_lower,
                 ref_hex = dict_get (map_of PARSER_PALETTE color_lower) (ustr ''#154747''),
                 ref_annotation_type = u_lower annotation_type,
                 ref_number = number,
                 ref_line = line_num,
                 ref_figure = current_figure p,
                 ref_pattern = pattern_type,
                 ref_context = (if length context > 100 then take 100 context @ ustr ''...''
                                else context)\<rparr>;
          p1 = p\<lparr>references := references p @ [ref]\<rparr>
      in case current_figure p of
           None \<Rightarrow> p1
         | Some fig \<Rightarrow>
             if fig \<noteq> 0 then
               p1\<lparr>by_figure := dict_set (by_figure p1) fig
                                   (dict_get (map_of (by_figure p1) fig) [] @ [ref])\<rparr>
             else p1)"

definition optional_number :: "match_obj \<Rightarrow> nat \<Rightarrow> int option" where
  \<comment> \<open>\<open>int(match.group(n)) if match.group(n) else None\<close>\<close>
  "optional_number m n =
     (case group m n of None \<Rightarrow> None | Some ds \<Rightarrow> if ds = [] then None else Some (int_of_digits ds))"

definition find_color_context :: "ustring \<Rightarrow> ustring option" where
  \<comment> \<open>the first palette key that \<open>re.search(rf"\b{color}\b", text, re.IGNORECASE)\<close> finds\<close>
  "find_color_context t =
     find (\<lambda>color. search True (Seq Boundary (Seq (lit_str color) Boundary)) t \<noteq> None)
          (map fst PARSER_PALETTE)"

definition circled_reference :: "ustring \<Rightarrow> nat \<Rightarrow> parser \<Rightarrow> match_obj \<Rightarrow> parser" where
  \<comment> \<open>the body of the fourth loop of \<open>_parse_line\<close>, for one circled digit of the line\<close>
  "circled_reference line line_num q m =
     (let circled = group_str m 1
      in case map_of CIRCLED_NUMBERS circled of
           None \<Rightarrow> q
         | Some num \<Rightarrow>
             if num \<noteq> 0 then
               (let before = take (start m) line
                in case find_color_context before of
                     None \<Rightarrow> q
                   | Some color_context \<Rightarrow>
                       if color_context \<noteq> [] then
                         add_reference color_context (ustr ''callout'') (Some num) line_num
                           (ustr ''circled'') (u_strip line) q
                       else q)
             else q)"

definition parse_line :: "ustring \<Rightarrow> nat \<Rightarrow> parser \<Rightarrow> parser" where
  \<comment> \<open>\<open>_parse_line\<close>, without the printing of the \<open>verbose\<close> mode\<close>
  "parse_line line line_num p =
     (let p0 = (case search False FIGURE_REF_PATTERN line of
                  None \<Rightarrow> p
                | Some figure_match \<Rightarrow>
                    p\<lparr>current_figure := Some (int_of_digits (group_str figure_match 1))\<rparr>);
          p1 = foldl (\<lambda>q m. add_reference (group_str m 1) (group_str m 2)
                              (optional_number m 3) line_num (ustr ''parenthetical'')
                              (u_strip line) q)
                     p0 (finditer True PARENTHETICAL_PATTERN line);
          p2 = foldl (\<lambda>q m. add_reference (group_str m 1) (group_str m 2)
                              (optional_number m 3) line_num (ustr ''inline'') (u_strip line) q)
                     p1 (finditer True INLINE_PATTERN line);
          p3 = foldl (\<lambda>q m. add_reference (group_str m 3) (group_str m 1)
                              (Some (int_of_digits (group_str m 2))) line_num
                              (ustr ''number_first'') (u_strip line) q)
                     p2 (finditer True NUMBER_FIRST_PATTERN line);
          p4 = foldl (circled_reference line line_num) p3 (finditer False CIRCLED_PATTERN line)
      in p4)"

fun split_lines :: "ustring \<Rightarrow> ustring list" where
  \<comment> \<open>\<open>text.split("\\n")\<close>\<close>
  "split_lines [] = [[]]"
| "split_lines (c # cs) =
     (if c = 0x0A then [] # split_lines cs
      else (case split_lines cs of l # ls \<Rightarrow> (c # l) # ls | [] \<Rightarrow> [[c]]))"

fun parse_lines :: "nat \<Rightarrow> ustring list \<Rightarrow> parser \<Rightarrow> parser" where
  \<comment> \<open>the loop of \<open>parse_text\<close> over \<open>enumerate(lines, line_num)\<close>\<close>
  "parse_lines line_num [] p = p"
| "parse_lines line_num (line # lines) p = parse_lines (Suc line_num) lines (parse_line line line_num p)"

definition has_figure_heading :: "ustring \<Rightarrow> bool" where
  \<comment> \<open>the line sets the figure context: \<open>FIGURE_REF_PATTERN.search(line)\<close> finds a match\<close>
  "has_figure_heading line = (search False FIGURE_REF_PATTERN line \<noteq> None)"

definition parse_text :: "ustring \<Rightarrow> parser" where
  \<comment> \<open>the parser's state after \<open>parse_text\<close>, which returns its \<open>references\<close>; the method
      starts by setting the three fields as the constructor does\<close>
  "parse_text doc = parse_lines 1 (split_lines doc) TextColorParser"

fun expected_colors_loop ::
  "reference list \<Rightarrow> (int \<times> (int \<times> ustring) list) list \<Rightarrow> (int \<times> (int \<times> ustring) list) list" where
  \<comment> \<open>the loop of \<open>get_expected_colors\<close>; \<open>if ref["figure"] and ref["number"]\<close> holds when
      both are set and neither is 0\<close>
  "expected_colors_loop [] result = result"
| "expected_colors_loop (ref # refs) result =
     expected_colors_loop refs
       (case (ref_figure ref, ref_number ref) of
          (Some fig, Some num) \<Rightarrow>
            if fig \<noteq> 0 \<and> num \<noteq> 0 then
              (let result1 = (if fig \<notin> set (map fst result) then dict_set result fig []
                              else result)
               in dict_set result1 fig
                    (dict_set (dict_get (map_of result1 fig) []) num (ref_color ref)))
            else result
        | _ \<Rightarrow> result)"

definition get_expected_colors :: "parser \<Rightarrow> (int \<times> (int \<times> ustring) list) list" where
  "get_expected_colors p = expected_colors_loop (references p) []"

subsection \<open>Invariants of the parser's state\<close>

text \<open>
  \<open>by_figure_ok\<close>: a reference filed under a figure carries that figure. \<open>appends f N\<close>: the
  step \<open>f\<close> of the parser adds the references \<open>N fig\<close> to the flat list, where \<open>fig\<close> is the
  current figure, which it keeps and which they all carry, and it keeps \<open>by_figure_ok\<close>.
  \<open>line_figure\<close> is the current figure after the first statement of \<open>_parse_line\<close>.
\<close>

definition by_figure_ok :: "parser \<Rightarrow> bool" where
  "by_figure_ok p = (\<forall>(f, rs) \<in> set (by_figure p). \<forall>r \<in> set rs. ref_figure r = Some f)"

definition appends :: "(parser \<Rightarrow> parser) \<Rightarrow> (int option \<Rightarrow> reference list) \<Rightarrow> bool" where
  "appends f N =
     ((\<forall>p. references (f p) = references p @ N (current_figure p)
           \<and> current_figure (f p) = current_figure p
           \<and> (by_figure_ok p \<longrightarrow> by_figure_ok (f p)))
      \<and> (\<forall>fig. \<forall>r \<in> set (N fig). ref_figure r = fig))"

definition line_figure :: "ustring \<Rightarrow> int option \<Rightarrow> int option" where
  "line_figure line fig =
     (case search False FIGURE_REF_PATTERN line of
        None \<Rightarrow> fig
      | Some figure_match \<Rightarrow> Some (int_of_digits (group_str figure_match 1)))"

section \<open>Figure registry (screenshot_processor.py)\<close>

text \<open>
  \<open>FigureRegistry\<close>. The registry keeps \<open>color_map\<close>, a dict from a figure number to the
  dict \<open>annotation_colors\<close> of that figure, which goes from an annotation number to an entry
  with the keys \<open>color_name\<close>, \<open>hex\<close> and \<open>type\<close>. Of the entries of \<open>figure_data\<close> the
  figure number and the colour map are kept; the others hold arguments of \<open>add_figure\<close>
  passed through and take no part in \<open>color_map\<close> or in the count of the figures.
  A descriptor has the key \<open>number\<close> when \<open>ann_number\<close> is set.
\<close>

record color_entry =
  ce_color_name :: string
  ce_hex :: string
  ce_type :: string

record figure_data =
  figure_number :: int
  fig_color_map :: "(int \<times> color_entry) list"

record registry =
  figures :: "figure_data list"
  next_number :: int
  color_map :: "(int \<times> (int \<times> color_entry) list) list"

definition FigureRegistry :: registry where
  "FigureRegistry = \<lparr>figures = [], next_number = 1, color_map = []\<rparr>"

definition annotation_color :: "(int \<times> color_entry) list \<Rightarrow> descriptor \<Rightarrow> (int \<times> color_entry) list" where
  \<comment> \<open>the body of the first loop of \<open>add_figure\<close>, as far as \<open>annotation_colors\<close> goes\<close>
  "annotation_color annotation_colors ann =
     (case ann_number ann of
        None \<Rightarrow> annotation_colors
      | Some number \<Rightarrow>
          (let color = dict_get (ann_color ann) ''teal'';
               color_name = normalize_color color
           in dict_set annotation_colors number
                \<lparr>ce_color_name = color_name,
                 ce_hex = dict_get (map_of COLOR_PALETTE color_name) color,
                 ce_type = dict_get (ann_type ann) ''callout''\<rparr>))"

definition add_figure :: "registry \<Rightarrow> descriptor list \<Rightarrow> int \<times> registry" where
  \<comment> \<open>returns the assigned figure number and the registry after the call\<close>
  "add_figure r annotations =
     (let figure_num = next_number r;
          r1 = r\<lparr>next_number := next_number r + 1\<rparr>;
          annotation_colors = foldl annotation_color [] annotations;
          r2 = (if annotation_colors \<noteq> []
                then r1\<lparr>color_map := dict_set (color_map r1) figure_num annotation_colors\<rparr>
                else r1);
          figure_data = \<lparr>figure_number = figure_num, fig_color_map = annotation_colors\<rparr>
      in (figure_num, r2\<lparr>figures := figures r2 @ [figure_data]\<rparr>))"

definition add_figures :: "descriptor list list \<Rightarrow> registry" where
  \<comment> \<open>a new registry after a sequence of calls of \<open>add_figure\<close>, one per list of annotations\<close>
  "add_figures calls = foldl (\<lambda>r annotations. snd (add_figure r annotations)) FigureRegistry calls"

subsection \<open>Export to JSON and reading it back\<close>

text \<open>
  The values that the registry exports: integers, strings, lists, and dicts whose keys are
  integers or strings. \<open>json_reload\<close> is \<open>json.load\<close> of what \<open>json.dump\<close> wrote for such a
  value, as the library documents the two: JSON has string keys only, so \<open>dump\<close> writes
  the key \<open>k\<close> as \<open>str(k)\<close>, and \<open>load\<close> builds the dict from the pairs in the order of the
  file, a later pair replacing the value of an equal key.
\<close>

datatype pykey = KInt int | KStr string

datatype pyval =
    PInt int
  | PStr string
  | PList "pyval list"
  | PDict "(pykey \<times> pyval) list"

fun key_str :: "pykey \<Rightarrow> string" where
  "key_str (KInt i) = str_int i"
| "key_str (KStr s) = s"

definition from_items :: "('k \<times> 'v) list \<Rightarrow> ('k \<times> 'v) list" where
  \<comment> \<open>the dict built from pairs, in their order\<close>
  "from_items kvs = foldl (\<lambda>d (k, v). dict_set d k v) [] kvs"

fun json_reload :: "pyval \<Rightarrow> pyval" where
  "json_reload (PInt i) = PInt i"
| "json_reload (PStr s) = PStr s"
| "json_reload (PList vs) = PList (map json_reload vs)"
| "json_reload (PDict kvs) =
     PDict (from_items (map (\<lambda>(k, v). (KStr (key_str k), json_reload v)) kvs))"

definition dict_lookup :: "pyval \<Rightarrow> string \<Rightarrow> pyval option" where
  \<comment> \<open>\<open>d.get(k)\<close> for a string key\<close>
  "dict_lookup d k = (case d of PDict kvs \<Rightarrow> map_of kvs (KStr k) | _ \<Rightarrow> None)"

definition color_entry_py :: "color_entry \<Rightarrow> pyval" where
  "color_entry_py e =
     PDict [(KStr ''color_name'', PStr (ce_color_name e)), (KStr ''hex'', PStr (ce_hex e)),
            (KStr ''type'', PStr (ce_type e))]"

definition annotation_colors_py :: "(int \<times> color_entry) list \<Rightarrow> pyval" where
  "annotation_colors_py acs = PDict (map (\<lambda>(number, e). (KInt number, color_entry_py e)) acs)"

definition color_map_py :: "(int \<times> (int \<times> color_entry) list) list \<Rightarrow> pyval" where
  "color_map_py cm = PDict (map (\<lambda>(figure_num, acs). (KInt figure_num, annotation_colors_py acs)) cm)"

definition figure_data_py :: "figure_data \<Rightarrow> pyval" where
  "figure_data_py fd =
     PDict [(KStr ''figure_number'', PInt (figure_number fd)),
            (KStr ''color_map'', annotation_colors_py (fig_color_map fd))]"

definition to_json :: "registry \<Rightarrow> pyval" where
  "to_json r =
     PDict [(KStr ''figures'', PList (map figure_data_py (figures r))),
            (KStr ''total_count'', PInt (int (length (figures r)))),
            (KStr ''color_map'', color_map_py (color_map r)),
            (KStr ''color_palette'', PDict (map (\<lambda>(name, hex_val). (KStr name, PStr hex_val)) COLOR_PALETTE)),
            (KStr ''generated_by'', PStr ''TFCU Screenshot Annotation Pipeline v4.3.2'')]"

text \<open>
  The colour map with string keys: every figure number and every annotation number
  replaced by its decimal string, the values and the order unchanged.
\<close>

definition color_map_with_string_keys :: "(int \<times> (int \<times> color_entry) list) list \<Rightarrow> pyval" where
  "color_map_with_string_keys cm =
     PDict (map (\<lambda>(figure_num, acs).
                   (KStr (str_int figure_num),
                    PDict (map (\<lambda>(number, e). (KStr (str_int number), color_entry_py e)) acs)))
                cm)"

text \<open>Reading a decimal string back, the inverse of \<open>str\<close> on the integers.\<close>

fun nat_of_digits :: "string \<Rightarrow> nat" where
  "nat_of_digits s = foldl (\<lambda>n c. 10 * n + (of_char c - 48)) 0 s"

definition int_of_str :: "string \<Rightarrow> int" where
  "int_of_str s = (case s of [] \<Rightarrow> 0
                   | c # cs \<Rightarrow> if c = CHR ''-'' then - int (nat_of_digits cs) else int (nat_of_digits s))"

text \<open>A colour map is a dict: no key twice, at either level.\<close>

definition color_map_ok :: "(int \<times> (int \<times> color_entry) list) list \<Rightarrow> bool" where
  "color_map_ok cm = (distinct (map fst cm) \<and> (\<forall>(f, acs) \<in> set cm. distinct (map fst acs)))"

section \<open>Theorems\<close>

subsection \<open>Validator: helper lemmas\<close>

lemma clamp_axes:
  assumes "clamp_to_bounds x y r w h m = (x', y')"
  shows "placed_on_axis x' r w m \<and> placed_on_axis y' r h m"
  using assms by (auto simp: clamp_to_bounds_def placed_on_axis_def Let_def max_def min_def split: if_splits)

lemma placed_ok_within: "placed_ok v p \<Longrightarrow> within_bounds v p = fits_canvas v p"
  by (auto simp: placed_ok_def placed_on_axis_def within_bounds_def fits_canvas_def split: if_splits)

lemma check_bounds_True:
  "fst (check_bounds v x y r) =
     (margin v \<le> x - r \<and> x + r \<le> width v - margin v \<and> margin v \<le> y - r \<and> y + r \<le> height v - margin v)"
  by (auto simp: check_bounds_def)

lemma validate_and_adjust_step:
  assumes "validate_and_adjust v ann = (r, v')"
  shows "width v' = width v \<and> height v' = height v \<and> margin v' = margin v \<and>
         (\<exists>p. placed_annotations v' = placed_annotations v @ [p] \<and> placed_ok v p)"
proof -
  obtain x y rad where b: "get_annotation_bounds v ann 18 = (x, y, rad)"
    by (metis prod_cases3)
  obtain ok msg where cb: "check_bounds v x y rad = (ok, msg)" by fastforce
  obtain x1 y1 where c1: "(if \<not> ok then clamp_to_bounds x y rad (width v) (height v) (margin v) else (x, y)) = (x1, y1)"
    by fastforce
  define cols where "cols = check_collision v x1 y1 rad 5"
  obtain x2 y2 where c2: "(if cols \<noteq> [] then suggest_adjustment v x1 y1 rad cols else (x1, y1)) = (x2, y2)"
    by fastforce
  have v': "v' = v\<lparr>placed_annotations := placed_annotations v @
                  [\<lparr>p_x = x2, p_y = y2, p_radius = rad, p_type = dict_get (ann_type ann) ''callout'',
                    p_number = ann_number ann\<rparr>]\<rparr>"
    using assms b cb c1 c2 unfolding validate_and_adjust_def cols_def
    by (simp add: Let_def)
  have ok: "ok = (margin v \<le> x - rad \<and> x + rad \<le> width v - margin v \<and> margin v \<le> y - rad \<and> y + rad \<le> height v - margin v)"
    using check_bounds_True[of v x y rad] cb by simp
  have fin: "placed_on_axis x2 rad (width v) (margin v) \<and> placed_on_axis y2 rad (height v) (margin v)"
  proof (cases "cols = []")
    case False
    then have "clamp_to_bounds (py_round (of_int x1 + fst (foldl (push_away x1 y1) (0, 0) cols)))
                 (py_round (of_int y1 + snd (foldl (push_away x1 y1) (0, 0) cols))) rad (width v) (height v) (margin v) = (x2, y2)"
      using c2 by (simp add: suggest_adjustment_def Let_def)
    then show ?thesis by (rule clamp_axes)
  next
    case True
    then have e: "x2 = x1" "y2 = y1" using c2 by simp_all
    show ?thesis
    proof (cases ok)
      case True
      then have "x1 = x" "y1 = y" using c1 by simp_all
      with e True ok show ?thesis by (auto simp: placed_on_axis_def)
    next
      case False
      then have "clamp_to_bounds x y rad (width v) (height v) (margin v) = (x2, y2)"
        using c1 e by simp
      then show ?thesis by (rule clamp_axes)
    qed
  qed
  show ?thesis
    unfolding v' using fin by (simp add: placed_ok_def)
qed

lemma validate_all_loop_placed:
  assumes "validate_all_loop i anns (rs, v) = (rs', v')"
      and "\<forall>p\<in>set (placed_annotations v). placed_ok v p"
  shows "width v' = width v \<and> height v' = height v \<and> margin v' = margin v \<and>
         (\<forall>p\<in>set (placed_annotations v'). placed_ok v p)"
  using assms
proof (induction anns arbitrary: i rs v)
  case Nil
  then show ?case by simp
next
  case (Cons ann anns)
  obtain r v1 where s: "validate_and_adjust v ann = (r, v1)" by fastforce
  from validate_and_adjust_step[OF s] obtain p where
    d: "width v1 = width v" "height v1 = height v" "margin v1 = margin v"
    and p: "placed_annotations v1 = placed_annotations v @ [p]" "placed_ok v p"
    by blast
  have same: "placed_ok v1 = placed_ok v"
    using d by (auto simp: placed_ok_def fun_eq_iff)
  obtain rs1 where l: "validate_all_loop (Suc i) anns (rs1, v1) = (rs', v')"
    using Cons.prems(1) s by (simp add: Let_def)
  have "\<forall>q\<in>set (placed_annotations v1). placed_ok v1 q"
    using Cons.prems(2) p same by auto
  from Cons.IH[OF l this] show ?case using d same by simp
qed

lemma validate_and_adjust_eq:
  assumes "get_annotation_bounds v ann 18 = (x, y, rad)"
      and "check_bounds v x y rad = (ok, msg)"
      and "(if ok then (x, y) else clamp_to_bounds x y rad (width v) (height v) (margin v)) = (x1, y1)"
      and "check_collision v x1 y1 rad 5 = cols"
      and "(if cols = [] then (x1, y1) else suggest_adjustment v x1 y1 rad cols) = (x2, y2)"
  shows "validate_and_adjust v ann =
     (\<lparr>valid = \<not> missing_description ann,
       adjusted = (\<not> ok \<or> cols \<noteq> []),
       original_position = Some \<lparr>px_x = x, px_y = y, px_radius = rad\<rparr>,
       adjusted_position = (if \<not> ok \<or> cols \<noteq> []
                            then Some \<lparr>px_x = x2, px_y = y2, px_radius = rad\<rparr> else None),
       warnings = (if ok then [] else [''Out of bounds: '' @ msg])
                  @ (if cols = [] then []
                     else [''Collision detected with '' @ str_int (int (length cols))
                           @ '' annotation(s)'']),
       errors = (if missing_description ann
                 then [''Missing required '' @ [CHR 0x27] @ ''description'' @ [CHR 0x27]
                       @ '' field for '' @ dict_get (ann_type ann) ''callout'']
                 else [])\<rparr>,
      v\<lparr>placed_annotations := placed_annotations v @
          [\<lparr>p_x = x2, p_y = y2, p_radius = rad, p_type = dict_get (ann_type ann) ''callout'',
            p_number = ann_number ann\<rparr>]\<rparr>)"
  using assms unfolding validate_and_adjust_def
  by (cases ok; cases "cols = []"; simp add: Let_def)


lemma centre_callout_bounds:
  assumes "width v = 1000" and "height v = 1000"
      and "ann_type ann = Some ''callout''"
      and "ann_position ann = Some \<lparr>pos_x = Some 50, pos_y = Some 50\<rparr>"
  shows "get_annotation_bounds v ann 18 = (500, 500, 28)"
  using assms
  by (simp add: get_annotation_bounds_def dict_get_def percent_to_pixels_def
        calculate_dynamic_radius_def py_round_def Let_def)

lemma str_int_1: "str_int 1 = ''1''"
  by (simp add: str_int_def str_nat.simps digit_char_def)


lemma centre_callout_first:
  assumes "ann_type c = Some ''callout''"
      and "ann_position c = Some \<lparr>pos_x = Some 50, pos_y = Some 50\<rparr>"
  shows "snd (validate_and_adjust
                \<lparr>width = 1000, height = 1000, margin = 5, placed_annotations = []\<rparr> c)
         = \<lparr>width = 1000, height = 1000, margin = 5, placed_annotations =
             [\<lparr>p_x = 500, p_y = 500, p_radius = 28, p_type = ''callout'',
               p_number = ann_number c\<rparr>]\<rparr>"
proof -
  let ?V0 = "\<lparr>width = 1000, height = 1000, margin = 5, placed_annotations = []\<rparr>"
  have "get_annotation_bounds ?V0 c 18 = (500, 500, 28)"
    using assms by (intro centre_callout_bounds) simp_all
  moreover have "check_bounds ?V0 500 500 28 = (True, ''OK'')"
    by (simp add: check_bounds_def)
  moreover have "check_collision ?V0 500 500 28 5 = []"
    by (simp add: check_collision_def List.map_filter_simps)
  ultimately show ?thesis
    using validate_and_adjust_eq [of ?V0 c 500 500 28 True "''OK''" 500 500 "[]" 500 500] assms
    by (simp add: dict_get_def)
qed

lemma centre_callout_second:
  assumes "ann_type c = Some ''callout''"
      and "ann_position c = Some \<lparr>pos_x = Some 50, pos_y = Some 50\<rparr>"
  shows "validate_and_adjust
           \<lparr>width = 1000, height = 1000, margin = 5, placed_annotations =
              [\<lparr>p_x = 500, p_y = 500, p_radius = 28, p_type = ''callout'', p_number = n\<rparr>]\<rparr> c
         = (\<lparr>valid = \<not> missing_description c, adjusted = True,
             original_position = Some \<lparr>px_x = 500, px_y = 500, px_radius = 28\<rparr>,
             adjusted_position = Some \<lparr>px_x = 566, px_y = 566, px_radius = 28\<rparr>,
             warnings = [''Collision detected with 1 annotation(s)''],
             errors = (if missing_description c
                       then [''Missing required '' @ [CHR 0x27] @ ''description'' @ [CHR 0x27]
                             @ '' field for '' @ ''callout'']
                       else [])\<rparr>,
            \<lparr>width = 1000, height = 1000, margin = 5, placed_annotations =
              [\<lparr>p_x = 500, p_y = 500, p_radius = 28, p_type = ''callout'', p_number = n\<rparr>,
               \<lparr>p_x = 566, p_y = 566, p_radius = 28, p_type = ''callout'',
                 p_number = ann_number c\<rparr>]\<rparr>)"
proof -
  let ?P1 = "\<lparr>p_x = 500, p_y = 500, p_radius = 28, p_type = ''callout'', p_number = n\<rparr>"
  let ?V1 = "\<lparr>width = 1000, height = 1000, margin = 5, placed_annotations = [?P1]\<rparr>"
  let ?col = "\<lparr>col_placed = ?P1, col_distance = 0, col_required = 61, col_overlap = 61\<rparr>"
  have cc: "check_collision ?V1 500 500 28 5 = [?col]"
    by (simp add: check_collision_def List.map_filter_simps collision_with_def Let_def)
  have sa: "suggest_adjustment ?V1 500 500 28 [?col] = (566, 566)"
    by (simp add: suggest_adjustment_def push_away_def clamp_to_bounds_def py_round_def Let_def)
  have "get_annotation_bounds ?V1 c 18 = (500, 500, 28)"
    using assms by (intro centre_callout_bounds) simp_all
  moreover have "check_bounds ?V1 500 500 28 = (True, ''OK'')"
    by (simp add: check_bounds_def)
  ultimately show ?thesis
    using validate_and_adjust_eq [of ?V1 c 500 500 28 True "''OK''" 500 500 "[?col]" 566 566]
      cc sa assms
    by (simp add: dict_get_def str_int_1)
qed

lemma two_centre_callouts_placed:
  assumes "ann_type c1 = Some ''callout''"
      and "ann_position c1 = Some \<lparr>pos_x = Some 50, pos_y = Some 50\<rparr>"
      and "ann_type c2 = Some ''callout''"
      and "ann_position c2 = Some \<lparr>pos_x = Some 50, pos_y = Some 50\<rparr>"
  shows "placed_annotations (snd (validate_all (AnnotationValidator 1000 1000 5) [c1, c2]))
         = [\<lparr>p_x = 500, p_y = 500, p_radius = 28, p_type = ''callout'', p_number = ann_number c1\<rparr>,
            \<lparr>p_x = 566, p_y = 566, p_radius = 28, p_type = ''callout'', p_number = ann_number c2\<rparr>]"
proof -
  obtain r1 where s1:
    "validate_and_adjust \<lparr>width = 1000, height = 1000, margin = 5, placed_annotations = []\<rparr> c1
     = (r1, \<lparr>width = 1000, height = 1000, margin = 5, placed_annotations =
             [\<lparr>p_x = 500, p_y = 500, p_radius = 28, p_type = ''callout'',
               p_number = ann_number c1\<rparr>]\<rparr>)"
    using centre_callout_first [OF assms(1,2)] by (metis prod.collapse)
  note s2 = centre_callout_second [OF assms(3,4), of "ann_number c1"]
  show ?thesis
    by (simp add: validate_all_def AnnotationValidator_def s1 s2 Let_def split_beta)
qed

lemma two_centre_callouts_second:
  assumes "ann_type c1 = Some ''callout''"
      and "ann_position c1 = Some \<lparr>pos_x = Some 50, pos_y = Some 50\<rparr>"
      and "ann_type c2 = Some ''callout''"
      and "ann_position c2 = Some \<lparr>pos_x = Some 50, pos_y = Some 50\<rparr>"
  shows "res_annotations (fst (validate_all (AnnotationValidator 1000 1000 5) [c1, c2])) ! 1
         = result.extend
             \<lparr>valid = \<not> missing_description c2, adjusted = True,
              original_position = Some \<lparr>px_x = 500, px_y = 500, px_radius = 28\<rparr>,
              adjusted_position = Some \<lparr>px_x = 566, px_y = 566, px_radius = 28\<rparr>,
              warnings = [''Collision detected with 1 annotation(s)''],
              errors = (if missing_description c2
                        then [''Missing required '' @ [CHR 0x27] @ ''description'' @ [CHR 0x27]
                              @ '' field for '' @ ''callout'']
                        else [])\<rparr>
             \<lparr>index = 1, annotation = c2\<rparr>"
proof -
  let ?V1 = "\<lparr>width = 1000, height = 1000, margin = 5, placed_annotations =
             [\<lparr>p_x = 500, p_y = 500, p_radius = 28, p_type = ''callout'',
               p_number = ann_number c1\<rparr>]\<rparr>"
  obtain r1 where s1:
    "validate_and_adjust \<lparr>width = 1000, height = 1000, margin = 5, placed_annotations = []\<rparr> c1
     = (r1, ?V1)"
    using centre_callout_first [OF assms(1,2)] by (metis prod.collapse)
  have "res_annotations (fst (validate_all (AnnotationValidator 1000 1000 5) [c1, c2])) ! 1
        = result.extend (fst (validate_and_adjust ?V1 c2)) \<lparr>index = 1, annotation = c2\<rparr>"
    by (simp add: validate_all_def AnnotationValidator_def s1 Let_def split_beta)
  then show ?thesis
    by (simp only: centre_callout_second [OF assms(3,4), of "ann_number c1"] fst_conv)
qed

subsection \<open>Validator: claims\<close>

text \<open>
  C1 (as amended). For every ordered list of descriptors processed by \<open>validate_all\<close>,
  every record of \<open>placed_annotations\<close> lies, on each axis by itself, inside the margins
  (margin \<le> c - radius and c + radius \<le> dimension - margin) when that axis is long enough
  for its effective radius (radius + margin \<le> dimension - radius - margin), and at
  c = radius + margin, the lower bound of the clamp, when it is not. Hence the record
  satisfies margin \<le> x - radius, x + radius \<le> width - margin, margin \<le> y - radius and
  y + radius \<le> height - margin exactly when both axes are long enough for its radius.
\<close>

theorem placed_annotations_within_bounds:
  assumes "p \<in> set (placed_annotations (snd (validate_all v anns)))"
  shows "placed_on_axis (p_x p) (p_radius p) (width v) (margin v)
         \<and> placed_on_axis (p_y p) (p_radius p) (height v) (margin v)
         \<and> within_bounds v p = fits_canvas v p"
proof -
  let ?v0 = "v\<lparr>placed_annotations := []\<rparr>"
  obtain rs' v' where l: "validate_all v anns = (rs', v')" by fastforce
  then have "validate_all_loop 0 anns
       (\<lparr>res_annotations = [], res_total = length anns, res_valid = 0,
         res_adjusted = 0, res_errors = 0, res_all_valid = True\<rparr>, ?v0) = (rs', v')"
    by (simp add: validate_all_def)
  from validate_all_loop_placed[OF this]
  have "\<forall>q\<in>set (placed_annotations v'). placed_ok ?v0 q" by simp
  then have "placed_ok ?v0 p" using l assms by simp
  then have ok: "placed_ok v p" by (simp add: placed_ok_def)
  from placed_ok_within [OF ok] ok show ?thesis by (simp add: placed_ok_def)
qed

theorem placed_annotations_within_bounds_witness:
  "\<lparr>p_x = 566, p_y = 566, p_radius = 28, p_type = ''callout'', p_number = Some 2\<rparr>
     \<in> set (placed_annotations (snd (validate_all (AnnotationValidator 1000 1000 5)
          [\<lparr>ann_type = Some ''callout'', ann_position = Some \<lparr>pos_x = Some 50, pos_y = Some 50\<rparr>,
       ann_end = None, ann_bbox = None, ann_radius = None, ann_text = None,
       ann_description = Some ''Open the menu'', ann_number = Some 1, ann_color = None\<rparr>,
           \<lparr>ann_type = Some ''callout'', ann_position = Some \<lparr>pos_x = Some 50, pos_y = Some 50\<rparr>,
       ann_end = None, ann_bbox = None, ann_radius = None, ann_text = None,
       ann_description = Some ''Choose Save'', ann_number = Some 2, ann_color = None\<rparr>])))
   \<and> within_bounds (AnnotationValidator 1000 1000 5)
        \<lparr>p_x = 566, p_y = 566, p_radius = 28, p_type = ''callout'', p_number = Some 2\<rparr>"
proof -
  let ?P = "\<lparr>p_x = 566, p_y = 566, p_radius = 28, p_type = ''callout'', p_number = Some 2\<rparr>"
  let ?V = "AnnotationValidator 1000 1000 5"
  let ?A1 = "\<lparr>ann_type = Some ''callout'', ann_position = Some \<lparr>pos_x = Some 50, pos_y = Some 50\<rparr>,
       ann_end = None, ann_bbox = None, ann_radius = None, ann_text = None,
       ann_description = Some ''Open the menu'', ann_number = Some 1, ann_color = None\<rparr>"
  let ?A2 = "\<lparr>ann_type = Some ''callout'', ann_position = Some \<lparr>pos_x = Some 50, pos_y = Some 50\<rparr>,
       ann_end = None, ann_bbox = None, ann_radius = None, ann_text = None,
       ann_description = Some ''Choose Save'', ann_number = Some 2, ann_color = None\<rparr>"
  have e: "placed_annotations (snd (validate_all ?V [?A1, ?A2]))
           = [\<lparr>p_x = 500, p_y = 500, p_radius = 28, p_type = ''callout'',
                p_number = ann_number ?A1\<rparr>,
              \<lparr>p_x = 566, p_y = 566, p_radius = 28, p_type = ''callout'',
                p_number = ann_number ?A2\<rparr>]"
    by (rule two_centre_callouts_placed) simp_all
  have m: "?P \<in> set (placed_annotations (snd (validate_all ?V [?A1, ?A2])))"
    unfolding e by simp
  have f: "fits_canvas ?V ?P"
    by (simp add: fits_canvas_def AnnotationValidator_def)
  from placed_annotations_within_bounds [OF m]
  have "within_bounds ?V ?P = fits_canvas ?V ?P" by (elim conjE)
  then have "within_bounds ?V ?P" using f by (rule iffD2)
  with m show ?thesis by (rule conjI)
qed

text \<open>
  C1 (as stated) fails: a highlight over the whole of a 1000 by 1000 image has effective
  radius 500; it is clamped to x = y = 505 and registered there, and 505 + 500 exceeds
  1000 - 5.
\<close>

theorem placed_annotations_within_bounds_counterexample:
  "\<not> list_all (within_bounds (AnnotationValidator 1000 1000 5))
       (placed_annotations (snd (validate_all (AnnotationValidator 1000 1000 5)
          [\<lparr>ann_type = Some ''highlight'', ann_position = None, ann_end = None,
            ann_bbox = Some \<lparr>bbox_x = Some 0, bbox_y = Some 0, bbox_w = Some 100, bbox_h = Some 100\<rparr>,
            ann_radius = None, ann_text = None, ann_description = Some ''Whole screen'',
            ann_number = None, ann_color = None\<rparr>])))"
  by (simp add: validate_all_def validate_and_adjust_def get_annotation_bounds_def
        AnnotationValidator_def dict_get_def percent_to_pixels_def py_round_def Let_def
        check_bounds_def check_collision_def List.map_filter_simps clamp_to_bounds_def
        missing_description_def within_bounds_def)


text \<open>
  C2. The function \<open>percent_to_pixels\<close> of src/screenshot_processor.py truncates, the one of
  the packaged skill rounds; at 25% of 799 pixels, which is 199.75, the first returns 199
  and the second 200.
\<close>

theorem percent_to_pixels_rules_differ:
  "percent_to_pixels_toplevel 25 799 = 199 \<and> percent_to_pixels 25 799 = 200"
  by (simp add: percent_to_pixels_def percent_to_pixels_toplevel_def py_round_def py_int_def Let_def)

text \<open>
  C3. On a 1000 by 1000 canvas (margin 5), for two callouts both at x = 50%, y = 50%,
  numbered 1 and 2, whatever their other fields, \<open>validate_all\<close> reports a collision warning
  for the second, returns adjusted = true for it, and its adjusted position, which is the
  one registered, has its centre within [radius + margin, dimension - radius - margin] on
  both axes.
\<close>

theorem validate_all_two_centre_callouts:
  "let v = AnnotationValidator 1000 1000 5;
       c1 = d1\<lparr>ann_type := Some ''callout'',
                ann_position := Some \<lparr>pos_x = Some 50, pos_y = Some 50\<rparr>, ann_number := Some 1\<rparr>;
       c2 = d2\<lparr>ann_type := Some ''callout'',
                ann_position := Some \<lparr>pos_x = Some 50, pos_y = Some 50\<rparr>, ann_number := Some 2\<rparr>;
       second = res_annotations (fst (validate_all v [c1, c2])) ! 1
   in warnings second = [''Collision detected with 1 annotation(s)'']
      \<and> adjusted second
      \<and> (\<exists>x y r. adjusted_position second = Some \<lparr>px_x = x, px_y = y, px_radius = r\<rparr>
            \<and> r + margin v \<le> x \<and> x \<le> width v - r - margin v
            \<and> r + margin v \<le> y \<and> y \<le> height v - r - margin v
            \<and> last (placed_annotations (snd (validate_all v [c1, c2])))
                = \<lparr>p_x = x, p_y = y, p_radius = r, p_type = ''callout'', p_number = Some 2\<rparr>)"
proof -
  let ?c1 = "d1\<lparr>ann_type := Some ''callout'',
                ann_position := Some \<lparr>pos_x = Some 50, pos_y = Some 50\<rparr>, ann_number := Some 1\<rparr>"
  let ?c2 = "d2\<lparr>ann_type := Some ''callout'',
                ann_position := Some \<lparr>pos_x = Some 50, pos_y = Some 50\<rparr>, ann_number := Some 2\<rparr>"
  have t: "ann_type ?c1 = Some ''callout''"
          "ann_position ?c1 = Some \<lparr>pos_x = Some 50, pos_y = Some 50\<rparr>"
          "ann_type ?c2 = Some ''callout''"
          "ann_position ?c2 = Some \<lparr>pos_x = Some 50, pos_y = Some 50\<rparr>"
    by simp_all
  show ?thesis
    unfolding Let_def two_centre_callouts_placed [OF t] two_centre_callouts_second [OF t]
    by (simp add: result.defs AnnotationValidator_def)
qed

text \<open>
  C4. For every descriptor and validator state, \<open>validate_and_adjust\<close> returns valid = false
  exactly when the description is missing or empty and the type (callout when the key is
  absent) is callout, arrow or highlight, and then with an error message; an out-of-bounds
  position or a collision sets adjusted = true and adds one warning each, and nothing else
  sets adjusted; and in every case one placed record, of the descriptor's type and number,
  is appended to \<open>placed_annotations\<close>.
\<close>

theorem validate_and_adjust_errors_and_warnings:
  "let (r, v') = validate_and_adjust v ann;
       (x, y, rad) = get_annotation_bounds v ann 18;
       ok = fst (check_bounds v x y rad);
       (x1, y1) = (if ok then (x, y)
                   else clamp_to_bounds x y rad (width v) (height v) (margin v));
       cols = check_collision v x1 y1 rad 5
   in (valid r \<longleftrightarrow> \<not> missing_description ann)
      \<and> (missing_description ann \<longrightarrow> errors r \<noteq> [])
      \<and> (adjusted r \<longleftrightarrow> \<not> ok \<or> cols \<noteq> [])
      \<and> length (warnings r) = (if ok then 0 else 1) + (if cols = [] then 0 else 1)
      \<and> (\<exists>p. placed_annotations v' = placed_annotations v @ [p]
              \<and> p_type p = dict_get (ann_type ann) ''callout''
              \<and> p_number p = ann_number ann \<and> p_radius p = rad)"
proof -
  obtain x y rad where b: "get_annotation_bounds v ann 18 = (x, y, rad)"
    by (metis prod_cases3)
  obtain ok msg where cb: "check_bounds v x y rad = (ok, msg)" by fastforce
  obtain x1 y1 where c1:
    "(if ok then (x, y) else clamp_to_bounds x y rad (width v) (height v) (margin v)) = (x1, y1)"
    by fastforce
  define cols where "cols = check_collision v x1 y1 rad 5"
  obtain x2 y2 where c2:
    "(if cols = [] then (x1, y1) else suggest_adjustment v x1 y1 rad cols) = (x2, y2)"
    by fastforce
  note eq = validate_and_adjust_eq [OF b cb c1 cols_def [symmetric] c2]
  show ?thesis
    unfolding eq b cb Let_def prod.case fst_conv c1 cols_def [symmetric]
    by simp
qed

theorem validate_and_adjust_errors_and_warnings_witness:
  "missing_description
     \<lparr>ann_type = Some ''arrow'', ann_position = Some \<lparr>pos_x = Some 20, pos_y = Some 20\<rparr>,
      ann_end = Some \<lparr>pos_x = Some 0, pos_y = Some 0\<rparr>, ann_bbox = None, ann_radius = None,
      ann_text = None, ann_description = None, ann_number = None, ann_color = None\<rparr>
   \<and> \<not> valid (fst (validate_and_adjust (AnnotationValidator 1000 1000 5)
     \<lparr>ann_type = Some ''arrow'', ann_position = Some \<lparr>pos_x = Some 20, pos_y = Some 20\<rparr>,
      ann_end = Some \<lparr>pos_x = Some 0, pos_y = Some 0\<rparr>, ann_bbox = None, ann_radius = None,
      ann_text = None, ann_description = None, ann_number = None, ann_color = None\<rparr>))
   \<and> errors (fst (validate_and_adjust (AnnotationValidator 1000 1000 5)
     \<lparr>ann_type = Some ''arrow'', ann_position = Some \<lparr>pos_x = Some 20, pos_y = Some 20\<rparr>,
      ann_end = Some \<lparr>pos_x = Some 0, pos_y = Some 0\<rparr>, ann_bbox = None, ann_radius = None,
      ann_text = None, ann_description = None, ann_number = None, ann_color = None\<rparr>)) \<noteq> []
   \<and> adjusted (fst (validate_and_adjust (AnnotationValidator 1000 1000 5)
     \<lparr>ann_type = Some ''arrow'', ann_position = Some \<lparr>pos_x = Some 20, pos_y = Some 20\<rparr>,
      ann_end = Some \<lparr>pos_x = Some 0, pos_y = Some 0\<rparr>, ann_bbox = None, ann_radius = None,
      ann_text = None, ann_description = None, ann_number = None, ann_color = None\<rparr>))"
proof -
  let ?V = "AnnotationValidator 1000 1000 5"
  let ?A = "\<lparr>ann_type = Some ''arrow'', ann_position = Some \<lparr>pos_x = Some 20, pos_y = Some 20\<rparr>,
      ann_end = Some \<lparr>pos_x = Some 0, pos_y = Some 0\<rparr>, ann_bbox = None, ann_radius = None,
      ann_text = None, ann_description = None, ann_number = None, ann_color = None\<rparr>"
  have md: "missing_description ?A"
    by (simp add: missing_description_def dict_get_def)
  have gb: "get_annotation_bounds ?V ?A 18 = (0, 0, 15)"
    by (simp add: get_annotation_bounds_def dict_get_def percent_to_pixels_def py_round_def
          AnnotationValidator_def)
  have cb: "\<not> fst (check_bounds ?V 0 0 15)"
    by (simp add: check_bounds_def AnnotationValidator_def)
  show ?thesis
    using validate_and_adjust_errors_and_warnings [of ?V ?A] md cb
    unfolding gb Let_def prod.case
    by (simp add: split_beta)
qed

text \<open>
  C9. \<open>clamp_to_bounds\<close> is idempotent: for all x, y, radius, width, height and margin,
  clamping the clamped point again, with the same radius, width, height and margin,
  returns it unchanged.
\<close>

theorem clamp_to_bounds_idempotent:
  "clamp_to_bounds (fst (clamp_to_bounds x y r w h m)) (snd (clamp_to_bounds x y r w h m)) r w h m
   = clamp_to_bounds x y r w h m"
  by (simp add: clamp_to_bounds_def Let_def max_def min_def)

subsection \<open>Colours\<close>

lemmas py_text_eval = py_lower_def py_lower_char_def py_strip_def py_isspace_def Let_def
  char_of_eq_iff

lemma palette_keys:
  "map fst COLOR_PALETTE =
     [''red'', ''critical'', ''blue'', ''info'', ''gold'', ''warning'', ''yellow'', ''green'',
      ''success'', ''teal'', ''primary'', ''purple'', ''orange'']"
  by (simp add: COLOR_PALETTE_def)

lemma palette_key_no_hash:
  assumes "k \<in> set (map fst COLOR_PALETTE)"
  shows "\<not> startswith_hash k"
  using assms unfolding palette_keys by (auto simp: startswith_hash_def)

text \<open>
  C6 (as amended). With \<open>cl\<close> the colour string lower-cased and stripped: if \<open>cl\<close> does
  not start with a hash sign, \<open>_normalize_color\<close> returns a palette key, \<open>cl\<close> itself when
  it is one and "teal" otherwise; if \<open>cl\<close> is a hex string that equals a palette value
  case-insensitively, it returns a palette key that has this value; and a hex string that
  matches no palette value is returned as \<open>cl\<close>, which is not a palette key.
\<close>

theorem normalize_color_result:
  "let cl = py_strip (py_lower c); r = normalize_color c
   in (\<not> startswith_hash cl \<longrightarrow>
         r \<in> set (map fst COLOR_PALETTE)
         \<and> (cl \<in> set (map fst COLOR_PALETTE) \<longrightarrow> r = cl)
         \<and> (cl \<notin> set (map fst COLOR_PALETTE) \<longrightarrow> r = ''teal''))
      \<and> (startswith_hash cl \<and> cl \<in> set (map (py_lower \<circ> snd) COLOR_PALETTE) \<longrightarrow>
           (\<exists>h. (r, h) \<in> set COLOR_PALETTE \<and> py_lower h = cl))
      \<and> (startswith_hash cl \<and> cl \<notin> set (map (py_lower \<circ> snd) COLOR_PALETTE) \<longrightarrow>
           r = cl \<and> r \<notin> set (map fst COLOR_PALETTE))"
proof -
  let ?cl = "py_strip (py_lower c)"
  let ?keys = "set (map fst COLOR_PALETTE)"
  have teal: "''teal'' \<in> ?keys" by (simp add: palette_keys)
  have empty: "c = [] \<Longrightarrow> ?cl = []" by (simp add: py_strip_def py_lower_def)
  have nokey: "[] \<notin> ?keys" by (simp add: palette_keys)
  have plain: "\<not> startswith_hash ?cl \<Longrightarrow>
        normalize_color c = (if ?cl \<in> ?keys then ?cl else ''teal'')"
    using empty nokey by (auto simp: normalize_color_def Let_def)
  have hit: "\<exists>h. (normalize_color c, h) \<in> set COLOR_PALETTE \<and> py_lower h = ?cl"
    if h: "startswith_hash ?cl" and m: "?cl \<in> set (map (py_lower \<circ> snd) COLOR_PALETTE)"
  proof -
    from h have ne: "c \<noteq> []" using empty by (auto simp: startswith_hash_def)
    from m obtain e where e: "e \<in> set COLOR_PALETTE" "py_lower (snd e) = ?cl" by auto
    have "find (\<lambda>(name, hex_val). py_lower hex_val = ?cl) COLOR_PALETTE \<noteq> None"
      unfolding find_None_iff case_prod_unfold using e by blast
    then obtain name hex_val where
      f: "find (\<lambda>(name, hex_val). py_lower hex_val = ?cl) COLOR_PALETTE = Some (name, hex_val)"
      by fastforce
    from f have "(name, hex_val) \<in> set COLOR_PALETTE"
      unfolding find_Some_iff by (metis nth_mem)
    moreover from f have "py_lower hex_val = ?cl"
      unfolding find_Some_iff case_prod_unfold by (metis snd_conv)
    moreover have "normalize_color c = name"
      using ne h f by (simp add: normalize_color_def Let_def)
    ultimately show ?thesis by blast
  qed
  have miss: "normalize_color c = ?cl \<and> normalize_color c \<notin> ?keys"
    if h: "startswith_hash ?cl" and m: "?cl \<notin> set (map (py_lower \<circ> snd) COLOR_PALETTE)"
  proof -
    from h have ne: "c \<noteq> []" using empty by (auto simp: startswith_hash_def)
    from m have "find (\<lambda>(name, hex_val). py_lower hex_val = ?cl) COLOR_PALETTE = None"
      unfolding find_None_iff case_prod_unfold by force
    then have "normalize_color c = ?cl"
      using ne h by (simp add: normalize_color_def Let_def)
    then show ?thesis using h palette_key_no_hash by metis
  qed
  have A: "\<not> startswith_hash ?cl \<longrightarrow>
         normalize_color c \<in> ?keys
         \<and> (?cl \<in> ?keys \<longrightarrow> normalize_color c = ?cl)
         \<and> (?cl \<notin> ?keys \<longrightarrow> normalize_color c = ''teal'')"
    using plain teal by simp
  have B: "startswith_hash ?cl \<and> ?cl \<in> set (map (py_lower \<circ> snd) COLOR_PALETTE) \<longrightarrow>
           (\<exists>h. (normalize_color c, h) \<in> set COLOR_PALETTE \<and> py_lower h = ?cl)"
    using hit by (intro impI) (elim conjE)
  have C: "startswith_hash ?cl \<and> ?cl \<notin> set (map (py_lower \<circ> snd) COLOR_PALETTE) \<longrightarrow>
           normalize_color c = ?cl \<and> normalize_color c \<notin> ?keys"
    using miss by (intro impI) (elim conjE)
  from A B C show ?thesis
    unfolding Let_def by (intro conjI)
qed

theorem normalize_color_result_witness:
  "normalize_color ''#c00000'' = ''red'' \<and> normalize_color '' Blue '' = ''blue''
   \<and> normalize_color ''magenta'' = ''teal'' \<and> normalize_color ''#12AB56'' = ''#12ab56''"
proof -
  have l: "py_strip (py_lower ''#c00000'') = ''#c00000''"
          "py_strip (py_lower '' Blue '') = ''blue''"
          "py_strip (py_lower ''magenta'') = ''magenta''"
          "py_strip (py_lower ''#12AB56'') = ''#12ab56''"
    by (simp_all add: py_text_eval)
  have hexes: "map (py_lower \<circ> snd) COLOR_PALETTE =
    [''#c00000'', ''#c00000'', ''#2e74b5'', ''#2e74b5'', ''#ffc000'', ''#ffc000'', ''#ffc000'',
     ''#548235'', ''#548235'', ''#154747'', ''#154747'', ''#7030a0'', ''#ed7d31'']"
    by (simp add: COLOR_PALETTE_def py_text_eval)
  have a: "normalize_color '' Blue '' = ''blue''"
    using normalize_color_result [of "'' Blue ''"] unfolding Let_def l palette_keys
    by (simp add: startswith_hash_def)
  have b: "normalize_color ''magenta'' = ''teal''"
    using normalize_color_result [of "''magenta''"] unfolding Let_def l palette_keys
    by (simp add: startswith_hash_def)
  have c: "normalize_color ''#12AB56'' = ''#12ab56''"
    using normalize_color_result [of "''#12AB56''"] unfolding Let_def l hexes
    by (simp add: startswith_hash_def)
  have d: "normalize_color ''#c00000'' = ''red''"
    by (simp add: normalize_color_def COLOR_PALETTE_def startswith_hash_def py_text_eval)
  from a b c d show ?thesis by simp
qed

text \<open>
  C6 (as stated) fails: the unrecognised hex string "#123456" comes back unchanged; it is
  neither a palette key nor "teal".
\<close>

theorem normalize_color_counterexample:
  "normalize_color ''#123456'' \<notin> set (map fst COLOR_PALETTE)
   \<and> normalize_color ''#123456'' \<noteq> ''teal''"
  by (simp add: normalize_color_def COLOR_PALETTE_def startswith_hash_def py_text_eval)

text \<open>
  C8. \<open>_colors_match\<close> returns true exactly when the two names are equal after
  lower-casing or are co-members of a declared equivalence class; "gold" against "warning"
  is a match and "gold" against "green" is not.
\<close>

theorem colors_match_iff:
  "colors_match expected actual
     = (py_lower expected = py_lower actual
        \<or> co_members (py_lower expected) (py_lower actual))"
proof -
  have "(el = al \<or> al \<in> set (case map_of COLOR_EQUIVALENTS el of Some l \<Rightarrow> l | None \<Rightarrow> [el]))
        = (el = al \<or> co_members el al)" for el al :: string
    unfolding COLOR_EQUIVALENTS_def co_members_def
    by (auto split: if_splits)
  then show ?thesis
    by (auto simp: colors_match_def Let_def)
qed

theorem colors_match_iff_witness:
  "colors_match ''gold'' ''warning'' \<and> \<not> colors_match ''gold'' ''green''
   \<and> colors_match ''Gold'' ''gold''"
  unfolding colors_match_iff
  by (simp add: co_members_def COLOR_EQUIVALENTS_def py_text_eval)

subsection \<open>Parser: helper lemmas\<close>

lemma set_dict_set: "set (dict_set d k v) \<subseteq> set d \<union> {(k, v)}"
  by (induction d) (auto split: if_splits)

lemma add_reference_by_figure_ok:
  assumes "by_figure_ok p"
  shows "by_figure_ok (add_reference c t n lnum pt ctx p)"
proof (cases "current_figure p")
  case None
  then show ?thesis using assms by (simp add: add_reference_def Let_def by_figure_ok_def)
next
  case (Some fig)
  show ?thesis
  proof (cases "fig = 0")
    case True
    then show ?thesis using assms Some by (simp add: add_reference_def Let_def by_figure_ok_def)
  next
    case False
    define ref where "ref = \<lparr>ref_color = u_lower c,
                 ref_hex = dict_get (map_of PARSER_PALETTE (u_lower c)) (ustr ''#154747''),
                 ref_annotation_type = u_lower t,
                 ref_number = n,
                 ref_line = lnum,
                 ref_figure = current_figure p,
                 ref_pattern = pt,
                 ref_context = (if length ctx > 100 then take 100 ctx @ ustr ''...'' else ctx)\<rparr>"
    define old where "old = dict_get (map_of (by_figure p) fig) []"
    have bf: "by_figure (add_reference c t n lnum pt ctx p) = dict_set (by_figure p) fig (old @ [ref])"
      using Some False by (simp add: add_reference_def Let_def ref_def old_def)
    have old: "\<forall>r \<in> set old. ref_figure r = Some fig"
    proof (cases "map_of (by_figure p) fig")
      case None
      then show ?thesis by (simp add: old_def dict_get_def)
    next
      case (Some rs)
      then have "(fig, rs) \<in> set (by_figure p)" by (rule map_of_SomeD)
      then show ?thesis using assms Some by (auto simp: old_def dict_get_def by_figure_ok_def)
    qed
    have "ref_figure ref = Some fig" using Some by (simp add: ref_def)
    with old have new: "\<forall>r \<in> set (old @ [ref]). ref_figure r = Some fig" by auto
    show ?thesis
      unfolding by_figure_ok_def bf
      using set_dict_set [of "by_figure p" fig "old @ [ref]"] assms new
      by (fastforce simp: by_figure_ok_def)
  qed
qed

lemma add_reference_appends: "\<exists>N. appends (add_reference c t n lnum pt ctx) N"
proof -
  let ?N = "\<lambda>fig. [\<lparr>ref_color = u_lower c,
                 ref_hex = dict_get (map_of PARSER_PALETTE (u_lower c)) (ustr ''#154747''),
                 ref_annotation_type = u_lower t,
                 ref_number = n,
                 ref_line = lnum,
                 ref_figure = fig,
                 ref_pattern = pt,
                 ref_context = (if length ctx > 100 then take 100 ctx @ ustr ''...'' else ctx)\<rparr>]"
  have a: "references (add_reference c t n lnum pt ctx p) = references p @ ?N (current_figure p)" for p
    by (simp add: add_reference_def Let_def split: option.splits)
  have b: "current_figure (add_reference c t n lnum pt ctx p) = current_figure p" for p
    by (simp add: add_reference_def Let_def split: option.splits)
  have "appends (add_reference c t n lnum pt ctx) ?N"
    unfolding appends_def
  proof (intro conjI allI ballI impI)
    fix p
    show "references (add_reference c t n lnum pt ctx p) = references p @ ?N (current_figure p)"
      by (rule a)
    show "current_figure (add_reference c t n lnum pt ctx p) = current_figure p"
      by (rule b)
    show "by_figure_ok (add_reference c t n lnum pt ctx p)" if "by_figure_ok p"
      using that by (rule add_reference_by_figure_ok)
  next
    fix fig r
    assume "r \<in> set (?N fig)"
    then show "ref_figure r = fig" by simp
  qed
  then show ?thesis by (rule exI [of _ ?N])
qed

lemma appends_id: "appends (\<lambda>p. p) (\<lambda>fig. [])"
  by (simp add: appends_def)

lemma appends_comp:
  assumes "appends f N" and "appends g M"
  shows "appends (\<lambda>p. g (f p)) (\<lambda>fig. N fig @ M fig)"
proof -
  have f: "references (f p) = references p @ N (current_figure p)"
          "current_figure (f p) = current_figure p"
          "by_figure_ok p \<Longrightarrow> by_figure_ok (f p)" for p
    using assms(1) by (simp_all add: appends_def)
  have g: "references (g p) = references p @ M (current_figure p)"
          "current_figure (g p) = current_figure p"
          "by_figure_ok p \<Longrightarrow> by_figure_ok (g p)" for p
    using assms(2) by (simp_all add: appends_def)
  have n: "\<forall>r \<in> set (N fig). ref_figure r = fig" for fig
    using assms(1) by (simp add: appends_def)
  have m: "\<forall>r \<in> set (M fig). ref_figure r = fig" for fig
    using assms(2) by (simp add: appends_def)
  show ?thesis
    unfolding appends_def
  proof (intro conjI allI ballI impI)
    fix p
    show "references (g (f p)) = references p @ N (current_figure p) @ M (current_figure p)"
      by (simp add: f g)
    show "current_figure (g (f p)) = current_figure p"
      by (simp add: f g)
    show "by_figure_ok (g (f p))" if "by_figure_ok p"
      using that by (intro f g)
  next
    fix fig r
    assume "r \<in> set (N fig @ M fig)"
    then show "ref_figure r = fig" using n [of fig] m [of fig] by auto
  qed
qed

lemma appends_foldl:
  assumes "\<And>x. \<exists>N. appends (\<lambda>q. f q x) N"
  shows "\<exists>N. appends (\<lambda>p. foldl f p xs) N"
proof (induction xs)
  case Nil
  have "appends (\<lambda>p. foldl f p []) (\<lambda>fig. [])"
    using appends_id by simp
  then show ?case by (rule exI [of _ "\<lambda>fig. []"])
next
  case (Cons x xs)
  obtain N where n: "appends (\<lambda>q. f q x) N" using assms [of x] ..
  obtain M where m: "appends (\<lambda>p. foldl f p xs) M" using Cons.IH ..
  have "appends (\<lambda>p. foldl f p (x # xs)) (\<lambda>fig. N fig @ M fig)"
    using appends_comp [OF n m] by simp
  then show ?case by (rule exI [of _ "\<lambda>fig. N fig @ M fig"])
qed

lemma appends_if:
  assumes "\<exists>N. appends f N" and "\<exists>N. appends g N"
  shows "\<exists>N. appends (if c then f else g) N"
  using assms by (cases c) simp_all

lemma appends_case_option:
  assumes "\<exists>N. appends f N" and "\<And>x. \<exists>N. appends (g x) N"
  shows "\<exists>N. appends (case opt of None \<Rightarrow> f | Some x \<Rightarrow> g x) N"
  using assms by (cases opt) simp_all

lemma circled_reference_appends: "\<exists>N. appends (\<lambda>q. circled_reference line lnum q m) N"
proof -
  have skip: "\<exists>N. appends (\<lambda>q. q) N"
    by (rule exI [of _ "\<lambda>fig. []"]) (rule appends_id)
  have e: "(\<lambda>q. circled_reference line lnum q m)
        = (case map_of CIRCLED_NUMBERS (group_str m 1) of
             None \<Rightarrow> (\<lambda>q. q)
           | Some num \<Rightarrow>
               if num \<noteq> 0 then
                 (case find_color_context (take (start m) line) of
                    None \<Rightarrow> (\<lambda>q. q)
                  | Some color_context \<Rightarrow>
                      if color_context \<noteq> [] then
                        add_reference color_context (ustr ''callout'') (Some num) lnum
                          (ustr ''circled'') (u_strip line)
                      else (\<lambda>q. q))
               else (\<lambda>q. q))"
    by (simp add: circled_reference_def Let_def fun_eq_iff split: option.splits)
  show ?thesis
    unfolding e
    by (intro appends_case_option appends_if skip add_reference_appends)
qed

lemma parse_line_appends:
  "\<exists>N. (\<forall>p. references (parse_line line lnum p)
               = references p @ N (line_figure line (current_figure p))
             \<and> current_figure (parse_line line lnum p) = line_figure line (current_figure p)
             \<and> (by_figure_ok p \<longrightarrow> by_figure_ok (parse_line line lnum p)))
        \<and> (\<forall>fig. \<forall>r \<in> set (N fig). ref_figure r = fig)"
proof -
  let ?f1 = "\<lambda>q m. add_reference (group_str m 1) (group_str m 2)
                              (optional_number m 3) lnum (ustr ''parenthetical'')
                              (u_strip line) q"
  let ?f2 = "\<lambda>q m. add_reference (group_str m 1) (group_str m 2)
                              (optional_number m 3) lnum (ustr ''inline'') (u_strip line) q"
  let ?f3 = "\<lambda>q m. add_reference (group_str m 3) (group_str m 1)
                              (Some (int_of_digits (group_str m 2))) lnum
                              (ustr ''number_first'') (u_strip line) q"
  let ?f4 = "circled_reference line lnum"
  let ?p0 = "\<lambda>p. (case search False FIGURE_REF_PATTERN line of
                  None \<Rightarrow> p
                | Some figure_match \<Rightarrow>
                    p\<lparr>current_figure := Some (int_of_digits (group_str figure_match 1))\<rparr>)"
  obtain N1 where n1: "appends (\<lambda>p. foldl ?f1 p (finditer True PARENTHETICAL_PATTERN line)) N1"
    using appends_foldl [of ?f1, OF add_reference_appends] ..
  obtain N2 where n2: "appends (\<lambda>p. foldl ?f2 p (finditer True INLINE_PATTERN line)) N2"
    using appends_foldl [of ?f2, OF add_reference_appends] ..
  obtain N3 where n3: "appends (\<lambda>p. foldl ?f3 p (finditer True NUMBER_FIRST_PATTERN line)) N3"
    using appends_foldl [of ?f3, OF add_reference_appends] ..
  obtain N4 where n4: "appends (\<lambda>p. foldl ?f4 p (finditer False CIRCLED_PATTERN line)) N4"
    using appends_foldl [of ?f4, OF circled_reference_appends] ..
  define F where "F = (\<lambda>p. foldl ?f4 (foldl ?f3 (foldl ?f2 (foldl ?f1 p
                         (finditer True PARENTHETICAL_PATTERN line))
                         (finditer True INLINE_PATTERN line))
                         (finditer True NUMBER_FIRST_PATTERN line))
                         (finditer False CIRCLED_PATTERN line))"
  define N where "N = (\<lambda>fig. ((N1 fig @ N2 fig) @ N3 fig) @ N4 fig)"
  have apF: "appends F N"
    unfolding F_def N_def by (rule appends_comp [OF appends_comp [OF appends_comp [OF n1 n2] n3] n4])
  have pl: "parse_line line lnum p = F (?p0 p)" for p
    unfolding parse_line_def Let_def F_def by (rule refl)
  have p0: "references (?p0 p) = references p"
           "current_figure (?p0 p) = line_figure line (current_figure p)"
           "by_figure_ok (?p0 p) = by_figure_ok p" for p
    by (simp_all add: line_figure_def by_figure_ok_def split: option.splits)
  have "(\<forall>p. references (parse_line line lnum p)
               = references p @ N (line_figure line (current_figure p))
             \<and> current_figure (parse_line line lnum p) = line_figure line (current_figure p)
             \<and> (by_figure_ok p \<longrightarrow> by_figure_ok (parse_line line lnum p)))
        \<and> (\<forall>fig. \<forall>r \<in> set (N fig). ref_figure r = fig)"
    using apF unfolding appends_def pl by (simp add: p0)
  then show ?thesis by (rule exI [of _ N])
qed

lemma line_figure_no_heading: "\<not> has_figure_heading line \<Longrightarrow> line_figure line fig = fig"
  by (cases "search False FIGURE_REF_PATTERN line") (simp_all add: has_figure_heading_def line_figure_def)

lemma parse_lines_append:
  "parse_lines n (xs @ ys) p = parse_lines (n + length xs) ys (parse_lines n xs p)"
  by (induction xs arbitrary: n p) simp_all

lemma parse_lines_props:
  "set (references p) \<subseteq> set (references (parse_lines n ls p))
   \<and> (by_figure_ok p \<longrightarrow> by_figure_ok (parse_lines n ls p))
   \<and> ((\<forall>l \<in> set ls. \<not> has_figure_heading l)
        \<longrightarrow> current_figure (parse_lines n ls p) = current_figure p)"
proof (induction ls arbitrary: n p)
  case Nil
  show ?case by simp
next
  case (Cons line ls)
  obtain N where N0: "\<forall>q. references (parse_line line n q)
               = references q @ N (line_figure line (current_figure q))
             \<and> current_figure (parse_line line n q) = line_figure line (current_figure q)
             \<and> (by_figure_ok q \<longrightarrow> by_figure_ok (parse_line line n q))"
    using parse_line_appends [of line n] by (elim exE conjE)
  have N: "references (parse_line line n q)
               = references q @ N (line_figure line (current_figure q))"
      "current_figure (parse_line line n q) = line_figure line (current_figure q)"
      "by_figure_ok q \<Longrightarrow> by_figure_ok (parse_line line n q)" for q
    using N0 by simp_all
  let ?q = "parse_line line n p"
  note ih = Cons.IH [of ?q "Suc n"]
  have a: "set (references p) \<subseteq> set (references (parse_lines n (line # ls) p))"
    using ih N(1) [of p] by auto
  have b: "by_figure_ok p \<longrightarrow> by_figure_ok (parse_lines n (line # ls) p)"
    using ih N(3) [of p] by auto
  have c: "(\<forall>l \<in> set (line # ls). \<not> has_figure_heading l)
        \<longrightarrow> current_figure (parse_lines n (line # ls) p) = current_figure p"
    using ih N(2) [of p] by (auto simp: line_figure_no_heading)
  from a b c show ?case by (intro conjI)
qed

lemma expected_colors_loop_filter:
  assumes "\<And>r. \<not> P r \<Longrightarrow> ref_figure r = None \<or> ref_number r = None"
  shows "expected_colors_loop (filter P refs) acc = expected_colors_loop refs acc"
proof (induction refs arbitrary: acc)
  case Nil
  show ?case by simp
next
  case (Cons a refs)
  show ?case
  proof (cases "P a")
    case True
    then show ?thesis using Cons.IH by simp
  next
    case False
    then have "ref_figure a = None \<or> ref_number a = None" by (rule assms)
    then show ?thesis using False Cons.IH by (auto split: option.splits)
  qed
qed

subsection \<open>Parser: claims\<close>

text \<open>
  C7. For the text of the four lines \<open>Figure 1\<close>, \<open>Click the (red callout 1) button.\<close>,
  \<open>Figure 2\<close> and \<open>(blue arrow 2) shows...\<close>, \<open>parse_text\<close> followed by
  \<open>get_expected_colors\<close> yields exactly the mapping \<open>{1: {1: "red"}, 2: {2: "blue"}}\<close>.
\<close>

theorem parse_text_expected_colors:
  "get_expected_colors
     (parse_text (ustr (''Figure 1'' @ [CHR 0x0A] @ ''Click the (red callout 1) button.''
                        @ [CHR 0x0A] @ ''Figure 2'' @ [CHR 0x0A] @ ''(blue arrow 2) shows...'')))
   = [(1, [(1, ustr ''red'')]), (2, [(2, ustr ''blue'')])]"
  by code_simp

text \<open>
  C10. For every text and every line of it such that neither this line nor a line before it
  has a figure heading: every colour reference \<open>r\<close> that \<open>_parse_line\<close> makes of the line,
  by any of its four patterns, is in the flat list \<open>references\<close> after \<open>parse_text\<close>, has
  no figure, is in no list of \<open>by_figure\<close>, and \<open>get_expected_colors\<close> returns what it
  returns without \<open>r\<close>, which is also what it returns from the references whose figure and
  number are both set.
\<close>

theorem reference_without_figure:
  assumes "k < length (split_lines doc)"
      and "\<forall>l \<in> set (take (Suc k) (split_lines doc)). \<not> has_figure_heading l"
      and "r \<in> set (references (parse_line (split_lines doc ! k) (Suc k) TextColorParser))"
  shows "r \<in> set (references (parse_text doc))
         \<and> ref_figure r = None
         \<and> (\<forall>(f, rs) \<in> set (by_figure (parse_text doc)). r \<notin> set rs)
         \<and> get_expected_colors (parse_text doc)
             = expected_colors_loop (filter (\<lambda>q. q \<noteq> r) (references (parse_text doc))) []
         \<and> get_expected_colors (parse_text doc)
             = expected_colors_loop
                 (filter (\<lambda>q. ref_figure q \<noteq> None \<and> ref_number q \<noteq> None)
                    (references (parse_text doc))) []"
proof -
  let ?ls = "split_lines doc"
  let ?line = "?ls ! k"
  let ?pre = "take k ?ls"
  let ?rest = "drop (Suc k) ?ls"
  let ?pk = "parse_lines 1 ?pre TextColorParser"
  have ls: "?ls = ?pre @ ?line # ?rest"
    using assms(1) by (rule id_take_nth_drop)
  have nh_line: "\<not> has_figure_heading ?line"
    using assms(1,2) by (simp add: take_Suc_conv_app_nth)
  have nh_pre: "\<forall>l \<in> set ?pre. \<not> has_figure_heading l"
    using assms(1,2) by (simp add: take_Suc_conv_app_nth)
  obtain N where N0: "\<forall>q. references (parse_line ?line (Suc k) q)
               = references q @ N (line_figure ?line (current_figure q))
             \<and> current_figure (parse_line ?line (Suc k) q) = line_figure ?line (current_figure q)
             \<and> (by_figure_ok q \<longrightarrow> by_figure_ok (parse_line ?line (Suc k) q))"
      and N1: "\<forall>fig. \<forall>r \<in> set (N fig). ref_figure r = fig"
    using parse_line_appends [of ?line "Suc k"] by (elim exE conjE)
  have N: "references (parse_line ?line (Suc k) q)
               = references q @ N (line_figure ?line (current_figure q))" for q
    using N0 by simp
  have fresh: "current_figure TextColorParser = None" "references TextColorParser = []"
              "by_figure_ok TextColorParser"
    by (simp_all add: TextColorParser_def by_figure_ok_def)
  have rN: "r \<in> set (N None)"
    using assms(3) N [of TextColorParser] nh_line
    by (simp add: fresh line_figure_no_heading)
  then have none: "ref_figure r = None" using N1 by simp
  have cur: "current_figure ?pk = None"
    using parse_lines_props [of TextColorParser 1 ?pre] nh_pre fresh by simp
  have "r \<in> set (references (parse_line ?line (Suc k) ?pk))"
    using rN N [of ?pk] cur nh_line by (simp add: line_figure_no_heading)
  moreover have "parse_text doc = parse_lines (Suc (Suc k)) ?rest (parse_line ?line (Suc k) ?pk)"
  proof -
    have "parse_text doc = parse_lines 1 (?pre @ ?line # ?rest) TextColorParser"
      unfolding parse_text_def using ls by simp
    also have "\<dots> = parse_lines (1 + length ?pre) (?line # ?rest) ?pk"
      by (rule parse_lines_append)
    also have "1 + length ?pre = Suc k" using assms(1) by simp
    finally show ?thesis by simp
  qed
  ultimately have mem: "r \<in> set (references (parse_text doc))"
    using parse_lines_props [of "parse_line ?line (Suc k) ?pk" "Suc (Suc k)" ?rest] by auto
  have "by_figure_ok (parse_text doc)"
    unfolding parse_text_def
    using parse_lines_props [of TextColorParser 1 ?ls] fresh by simp
  then have nowhere: "\<forall>(f, rs) \<in> set (by_figure (parse_text doc)). r \<notin> set rs"
    using none unfolding by_figure_ok_def by fastforce
  have e1: "expected_colors_loop (filter (\<lambda>q. q \<noteq> r) (references (parse_text doc))) []
        = expected_colors_loop (references (parse_text doc)) []"
    by (rule expected_colors_loop_filter) (simp add: none)
  have e2: "expected_colors_loop
                 (filter (\<lambda>q. ref_figure q \<noteq> None \<and> ref_number q \<noteq> None)
                    (references (parse_text doc))) []
        = expected_colors_loop (references (parse_text doc)) []"
    by (rule expected_colors_loop_filter) auto
  from mem none nowhere e1 e2 show ?thesis
    by (simp add: get_expected_colors_def)
qed

theorem reference_without_figure_witness:
  "\<lparr>ref_color = ustr ''red'', ref_hex = ustr ''#C00000'', ref_annotation_type = ustr ''callout'',
     ref_number = Some 1, ref_line = 1, ref_figure = None, ref_pattern = ustr ''circled'',
     ref_context = ustr ''red '' @ [0x2460]\<rparr>
     \<in> set (references (parse_text (ustr ''red '' @ [0x2460, 0x0A] @ ustr ''Figure 1'' @ [0x0A]
                                     @ ustr ''(blue arrow 2)'')))
   \<and> get_expected_colors (parse_text (ustr ''red '' @ [0x2460, 0x0A] @ ustr ''Figure 1'' @ [0x0A]
                                      @ ustr ''(blue arrow 2)''))
     = expected_colors_loop
         (filter (\<lambda>q. q \<noteq> \<lparr>ref_color = ustr ''red'', ref_hex = ustr ''#C00000'',
                            ref_annotation_type = ustr ''callout'', ref_number = Some 1,
                            ref_line = 1, ref_figure = None, ref_pattern = ustr ''circled'',
                            ref_context = ustr ''red '' @ [0x2460]\<rparr>)
            (references (parse_text (ustr ''red '' @ [0x2460, 0x0A] @ ustr ''Figure 1'' @ [0x0A]
                                     @ ustr ''(blue arrow 2)'')))) []"
proof -
  let ?T = "ustr ''red '' @ [0x2460, 0x0A] @ ustr ''Figure 1'' @ [0x0A] @ ustr ''(blue arrow 2)''"
  let ?R = "\<lparr>ref_color = ustr ''red'', ref_hex = ustr ''#C00000'',
              ref_annotation_type = ustr ''callout'', ref_number = Some 1,
              ref_line = 1, ref_figure = None, ref_pattern = ustr ''circled'',
              ref_context = ustr ''red '' @ [0x2460]\<rparr>"
  have k: "0 < length (split_lines ?T)"
    by code_simp
  have h: "\<forall>l \<in> set (take (Suc 0) (split_lines ?T)). \<not> has_figure_heading l"
    by code_simp
  have m: "?R \<in> set (references (parse_line (split_lines ?T ! 0) (Suc 0) TextColorParser))"
    by code_simp
  from reference_without_figure [OF k h m] show ?thesis
    by (intro conjI) (elim conjE, assumption)+
qed

subsection \<open>Figure registry: helper lemmas\<close>

lemma digit_char_val: "d < 10 \<Longrightarrow> (of_char (digit_char d) :: nat) = 48 + d"
proof -
  assume "d < 10"
  then have "d \<in> {0, 1, 2, 3, 4, 5, 6, 7, 8, 9}" by auto
  then show ?thesis by (auto simp: digit_char_def)
qed

lemma digit_char_not_minus: "d < 10 \<Longrightarrow> digit_char d \<noteq> CHR ''-''"
  using digit_char_val [of d] by auto

lemma nat_of_digits_str_nat: "nat_of_digits (str_nat n) = n"
proof (induction n rule: str_nat.induct)
  case (1 n)
  show ?case
  proof (cases "n < 10")
    case True
    then show ?thesis by (simp add: str_nat.simps [of n] digit_char_val)
  next
    case False
    have "nat_of_digits (str_nat n) = 10 * nat_of_digits (str_nat (n div 10)) + (of_char (digit_char (n mod 10)) - 48)"
      using False by (simp add: str_nat.simps [of n])
    also have "\<dots> = 10 * (n div 10) + n mod 10"
      using 1 False by (simp add: digit_char_val)
    finally show ?thesis by simp
  qed
qed

lemma str_nat_hd: "\<exists>c cs. str_nat n = c # cs \<and> c \<noteq> CHR ''-''"
proof (induction n rule: str_nat.induct)
  case (1 n)
  show ?case
  proof (cases "n < 10")
    case True
    then show ?thesis by (simp add: str_nat.simps [of n] digit_char_not_minus)
  next
    case False
    with 1 obtain c cs where "str_nat (n div 10) = c # cs" "c \<noteq> CHR ''-''" by blast
    then show ?thesis using False by (simp add: str_nat.simps [of n])
  qed
qed

lemma int_of_str_str_int: "int_of_str (str_int i) = i"
proof (cases "i < 0")
  case True
  then show ?thesis
    using nat_of_digits_str_nat [of "nat (- i)"]
    by (simp add: int_of_str_def str_int_def del: nat_of_digits.simps)
next
  case False
  obtain c cs where s: "str_nat (nat i) = c # cs" "c \<noteq> CHR ''-''"
    using str_nat_hd by blast
  have "int_of_str (str_nat (nat i)) = int (nat_of_digits (str_nat (nat i)))"
    unfolding int_of_str_def s using s(2) by simp
  then show ?thesis
    using False nat_of_digits_str_nat [of "nat i"]
    by (simp add: str_int_def del: nat_of_digits.simps)
qed

lemma inj_str_int: "inj str_int"
  by (rule inj_on_inverseI [where g = int_of_str]) (rule int_of_str_str_int)

lemma map_fst_dict_set:
  "map fst (dict_set d k v) = (if k \<in> set (map fst d) then map fst d else map fst d @ [k])"
  by (induction d) (auto simp: image_iff split: if_splits)

lemma distinct_dict_set: "distinct (map fst d) \<Longrightarrow> distinct (map fst (dict_set d k v))"
  by (simp add: map_fst_dict_set)

lemma dict_set_fresh: "k \<notin> set (map fst d) \<Longrightarrow> dict_set d k v = d @ [(k, v)]"
  by (induction d) auto

lemma foldl_dict_set_distinct:
  "distinct (map fst (d @ kvs)) \<Longrightarrow> foldl (\<lambda>d (k, v). dict_set d k v) d kvs = d @ kvs"
proof (induction kvs arbitrary: d)
  case Nil
  show ?case by simp
next
  case (Cons kv kvs)
  obtain k v where kv: "kv = (k, v)" by (cases kv)
  have "k \<notin> set (map fst d)" using Cons.prems kv by auto
  then have "dict_set d k v = d @ [(k, v)]" by (rule dict_set_fresh)
  moreover have "distinct (map fst ((d @ [(k, v)]) @ kvs))" using Cons.prems kv by simp
  ultimately show ?case using Cons.IH [of "d @ [(k, v)]"] kv by simp
qed

lemma from_items_distinct: "distinct (map fst kvs) \<Longrightarrow> from_items kvs = kvs"
  using foldl_dict_set_distinct [of "[]" kvs] by (simp add: from_items_def)

lemma json_reload_color_entry: "json_reload (color_entry_py e) = color_entry_py e"
  by (simp add: color_entry_py_def from_items_def)

lemma distinct_str_keys:
  "distinct (map fst kvs) \<Longrightarrow> distinct (map fst (map (\<lambda>(k, v). (KStr (str_int k), f v)) kvs))"
proof -
  assume d: "distinct (map fst kvs)"
  have "map fst (map (\<lambda>(k, v). (KStr (str_int k), f v)) kvs) = map (\<lambda>k. KStr (str_int k)) (map fst kvs)"
    by (induction kvs) auto
  moreover have "inj_on (\<lambda>k. KStr (str_int k)) (set (map fst kvs))"
    using inj_str_int by (auto simp: inj_on_def inj_def)
  ultimately show ?thesis using d by (simp only: distinct_map)
qed

lemma json_reload_annotation_colors:
  assumes "distinct (map fst acs)"
  shows "json_reload (annotation_colors_py acs)
         = PDict (map (\<lambda>(number, e). (KStr (str_int number), color_entry_py e)) acs)"
proof -
  let ?m = "map (\<lambda>(number, e). (KStr (str_int number), color_entry_py e)) acs"
  have e: "map (\<lambda>(k, v). (KStr (key_str k), json_reload v))
             (map (\<lambda>(number, e). (KInt number, color_entry_py e)) acs) = ?m"
    by (induction acs) (auto simp: json_reload_color_entry)
  have "json_reload (annotation_colors_py acs) = PDict (from_items ?m)"
    unfolding annotation_colors_py_def json_reload.simps e by (rule refl)
  also have "from_items ?m = ?m"
    by (rule from_items_distinct) (rule distinct_str_keys [OF assms])
  finally show ?thesis .
qed

lemma json_reload_color_map:
  assumes "color_map_ok cm"
  shows "json_reload (color_map_py cm) = color_map_with_string_keys cm"
proof -
  let ?g = "\<lambda>acs. PDict (map (\<lambda>(number, e). (KStr (str_int number), color_entry_py e)) acs)"
  let ?m = "map (\<lambda>(figure_num, acs). (KStr (str_int figure_num), ?g acs)) cm"
  have inner: "\<forall>(f, acs) \<in> set cm. distinct (map fst acs)"
    using assms by (simp add: color_map_ok_def)
  then have e: "map (\<lambda>(k, v). (KStr (key_str k), json_reload v))
               (map (\<lambda>(figure_num, acs). (KInt figure_num, annotation_colors_py acs)) cm) = ?m"
    by (induction cm) (auto simp: json_reload_annotation_colors)
  have d: "distinct (map fst cm)"
    using assms by (simp add: color_map_ok_def)
  have "json_reload (color_map_py cm) = PDict (from_items ?m)"
    unfolding color_map_py_def json_reload.simps e by (rule refl)
  also have "from_items ?m = ?m"
    by (rule from_items_distinct) (rule distinct_str_keys [OF d])
  finally show ?thesis
    unfolding color_map_with_string_keys_def .
qed

lemma foldl_annotation_color_distinct:
  "distinct (map fst acs) \<Longrightarrow> distinct (map fst (foldl annotation_color acs anns))"
proof (induction anns arbitrary: acs)
  case Nil
  then show ?case by simp
next
  case (Cons a anns)
  have "distinct (map fst (annotation_color acs a))"
    using Cons.prems by (auto simp: annotation_color_def Let_def distinct_dict_set split: option.splits)
  then show ?case using Cons.IH by simp
qed

lemma add_figure_color_map_ok:
  assumes "color_map_ok (color_map r)"
  shows "color_map_ok (color_map (snd (add_figure r anns)))"
proof -
  define acs where "acs = foldl annotation_color [] anns"
  have d: "distinct (map fst acs)"
    unfolding acs_def by (rule foldl_annotation_color_distinct) simp
  show ?thesis
  proof (cases "acs = []")
    case True
    then show ?thesis using assms by (simp add: add_figure_def Let_def acs_def)
  next
    case False
    then have cm: "color_map (snd (add_figure r anns)) = dict_set (color_map r) (next_number r) acs"
      by (simp add: add_figure_def Let_def acs_def)
    show ?thesis
      unfolding cm color_map_ok_def
      using assms d set_dict_set [of "color_map r" "next_number r" acs]
      by (auto simp: color_map_ok_def distinct_dict_set simp del: map_fst_dict_set)
  qed
qed

lemma add_figures_color_map_ok: "color_map_ok (color_map (add_figures calls))"
proof -
  have step: "color_map_ok (color_map r) \<Longrightarrow>
        color_map_ok (color_map (foldl (\<lambda>r annotations. snd (add_figure r annotations)) r calls))" for r
    by (induction calls arbitrary: r) (simp_all add: add_figure_color_map_ok)
  have base: "color_map_ok (color_map FigureRegistry)"
    by (simp add: FigureRegistry_def color_map_ok_def)
  from step [OF base] show ?thesis
    unfolding add_figures_def .
qed

lemma to_json_reload_lookup:
  "dict_lookup (json_reload (to_json r)) ''total_count'' = Some (PInt (int (length (figures r))))"
  "dict_lookup (json_reload (to_json r)) ''color_map'' = Some (json_reload (color_map_py (color_map r)))"
  "dict_lookup (to_json r) ''total_count'' = Some (PInt (int (length (figures r))))"
  "dict_lookup (to_json r) ''color_map'' = Some (color_map_py (color_map r))"
  by (simp_all add: to_json_def dict_lookup_def from_items_def)

subsection \<open>Figure registry: claims\<close>

text \<open>
  C5 (as amended). For every sequence of calls of \<open>add_figure\<close> on a new registry, the
  export of \<open>to_json\<close> written as JSON and read back has the same \<open>total_count\<close>, and its
  \<open>color_map\<close> is the registry's colour map with every figure number and every annotation
  number replaced by its decimal string, the entries and their order unchanged.
\<close>

theorem registry_json_round_trip:
  "dict_lookup (json_reload (to_json (add_figures calls))) ''total_count''
     = dict_lookup (to_json (add_figures calls)) ''total_count''
   \<and> dict_lookup (json_reload (to_json (add_figures calls))) ''color_map''
     = Some (color_map_with_string_keys (color_map (add_figures calls)))"
  by (simp add: to_json_reload_lookup json_reload_color_map add_figures_color_map_ok)

theorem registry_json_round_trip_witness:
  "dict_lookup (json_reload (to_json (add_figures
       [[\<lparr>ann_type = Some ''callout'', ann_position = None, ann_end = None, ann_bbox = None,
          ann_radius = None, ann_text = None, ann_description = Some ''Click'',
          ann_number = Some 1, ann_color = Some ''red''\<rparr>]]))) ''color_map''
   = Some (PDict [(KStr ''1'',
             PDict [(KStr ''1'',
               PDict [(KStr ''color_name'', PStr ''red''), (KStr ''hex'', PStr ''#C00000''),
                      (KStr ''type'', PStr ''callout'')])])])"
proof -
  let ?a = "\<lparr>ann_type = Some ''callout'', ann_position = None, ann_end = None, ann_bbox = None,
          ann_radius = None, ann_text = None, ann_description = Some ''Click'',
          ann_number = Some (1::int), ann_color = Some ''red''\<rparr>"
  have n: "normalize_color ''red'' = ''red''"
    by (simp add: normalize_color_def COLOR_PALETTE_def startswith_hash_def py_text_eval)
  have h: "map_of COLOR_PALETTE ''red'' = Some ''#C00000''"
    by (simp add: COLOR_PALETTE_def)
  have cm: "color_map (add_figures [[?a]])
            = [(1, [(1, \<lparr>ce_color_name = ''red'', ce_hex = ''#C00000'', ce_type = ''callout''\<rparr>)])]"
    by (simp add: add_figures_def add_figure_def FigureRegistry_def Let_def annotation_color_def
          dict_get_def n h)
  from registry_json_round_trip [of "[[?a]]"] show ?thesis
    unfolding cm by (simp add: color_map_with_string_keys_def color_entry_py_def str_int_1)
qed

text \<open>
  C5 (as stated) fails: after one figure with one callout numbered 1, the \<open>color_map\<close> read
  back has the string keys "1" where the exported one has the integer keys 1, so the two
  differ.
\<close>

theorem registry_json_round_trip_counterexample:
  "dict_lookup (json_reload (to_json (add_figures
       [[\<lparr>ann_type = Some ''callout'', ann_position = None, ann_end = None, ann_bbox = None,
          ann_radius = None, ann_text = None, ann_description = Some ''Click'',
          ann_number = Some 1, ann_color = Some ''red''\<rparr>]]))) ''color_map''
   \<noteq> dict_lookup (to_json (add_figures
       [[\<lparr>ann_type = Some ''callout'', ann_position = None, ann_end = None, ann_bbox = None,
          ann_radius = None, ann_text = None, ann_description = Some ''Click'',
          ann_number = Some 1, ann_color = Some ''red''\<rparr>]])) ''color_map''"
  by (simp add: to_json_reload_lookup add_figures_def add_figure_def FigureRegistry_def Let_def
        annotation_color_def color_map_py_def from_items_def)

end
